theory Spec2Isabelle
  imports Main
begin

section \<open>Promises and rejections\<close>

text \<open>
  An async function settles either to a rejection (\<open>Inl\<close>, the thrown value) or to a value
  (\<open>Inr\<close>). Every \<^verbatim>\<open>throw\<close> of these sources constructs an \<^verbatim>\<open>Error\<close> object, so a
  rejection is an error with its message. Heights, eras and counters are JavaScript numbers
  holding integers far below \<open>2^53\<close>; they are modelled as \<open>int\<close>.
\<close>

datatype error = Error string

type_synonym 'a promise = "error + 'a"

fun message :: "error \<Rightarrow> string" where
  "message (Error m) = m"

section \<open>The block-metadata task processor\<close>

text \<open>
  \<^verbatim>\<open>BlockMetadataProcessorService\<close>. A processing task (the spec's Work Item) is a row keyed by
  \<open>(entity, entity_id)\<close>; this service only touches rows of the entity
  \<^verbatim>\<open>ENTITY.BLOCK_METADATA\<close>, so the table is a map from \<open>entity_id\<close> to the row.
\<close>

datatype processing_status = NOT_PROCESSED | PROCESSED

record task_record =
  status :: processing_status
  attempts :: int
  row_collect_uid :: string

record task_message =
  entity_id :: int
  collect_uid :: string

record total_issuance_row =
  block_id :: int
  total_issuance :: string
  network_id :: int
  row_time :: int

record store =
  tasks :: "int \<Rightarrow> task_record option"
  issuance_rows :: "total_issuance_row list"

text \<open>
  What the service reads from outside: the constants of \<^verbatim>\<open>environment\<close> (the file that
  declares \<^verbatim>\<open>MAX_ATTEMPTS\<close> and \<^verbatim>\<open>NETWORK_ID\<close> is not among the sources, so they are
  parameters), the clock, and the answers of the chain and of the insert. The three chain
  calls of \<^verbatim>\<open>processBlock\<close> (\<^verbatim>\<open>getBlockHash\<close>, \<^verbatim>\<open>at\<close>, \<^verbatim>\<open>totalIssuance\<close>) are one
  answer: the issuance as a decimal string, or the rejection of the first call that fails.
\<close>

record processor_env =
  MAX_ATTEMPTS :: int
  NETWORK_ID :: int
  now :: int
  chain_totalIssuance :: "int \<Rightarrow> string promise"
  insert_rejection :: "error option"

text \<open>The calls on the store and the log records, in the order the service makes them.\<close>

datatype tp_event =
    Increase_attempts int
  | Read_task_and_lock_row int
  | Trx_rollback
  | Trx_commit
  | Insert_total_issuance int
  | Set_task_record_as_processed int
  | Log_warn string
  | Log_info string
  | Log_error string

text \<open>
  Modelled from the spec: \<^verbatim>\<open>TasksRepository.increaseAttempts\<close> is not among the sources.
  Spec 4.1 step 1: unconditionally increment \<open>attempts\<close> for the Work Item identified by
  \<open>(entity_kind, entity_id)\<close>. It runs on the store itself, outside any transaction; where
  no row has the id, no row changes.
\<close>

definition increaseAttempts :: "int \<Rightarrow> store \<Rightarrow> store" where
  "increaseAttempts blockId s =
     (case tasks s blockId of
        None \<Rightarrow> s
      | Some t \<Rightarrow> s\<lparr>tasks := (tasks s)(blockId \<mapsto> t\<lparr>attempts := attempts t + 1\<rparr>)\<rparr>)"

text \<open>
  Modelled from the spec: \<^verbatim>\<open>TasksRepository.readTaskAndLockRow\<close> is not among the sources.
  Spec 4.1 step 2: read-and-lock the Work Item row inside the transaction. The row lock
  excludes other processors; in this sequential model it is the read.
\<close>

definition readTaskAndLockRow :: "int \<Rightarrow> store \<Rightarrow> task_record option" where
  "readTaskAndLockRow blockId trx = tasks trx blockId"

text \<open>
  Modelled from the spec: \<^verbatim>\<open>TasksRepository.setTaskRecordAsProcessed\<close> is not among the
  sources. Spec 4.1 step 5: mark the Work Item \<open>PROCESSED\<close>, inside the transaction.
\<close>

definition setTaskRecordAsProcessed :: "int \<Rightarrow> task_record \<Rightarrow> store \<Rightarrow> store" where
  "setTaskRecordAsProcessed blockId taskRecord trx =
     trx\<lparr>tasks := (tasks trx)(blockId \<mapsto> taskRecord\<lparr>status := PROCESSED\<rparr>)\<rparr>"

text \<open>
  The private \<^verbatim>\<open>processBlock(blockId, trx)\<close> of the service: read the total issuance at the
  block and insert one row through the transaction.
\<close>

definition processBlock_metadata ::
  "processor_env \<Rightarrow> int \<Rightarrow> store \<Rightarrow> unit promise \<times> store \<times> tp_event list" where
  "processBlock_metadata env blockId trx =
     (case chain_totalIssuance env blockId of
        Inl e \<Rightarrow> (Inl e, trx, [])
      | Inr totalIssuance \<Rightarrow>
          (case insert_rejection env of
             Some e \<Rightarrow> (Inl e, trx, [])
           | None \<Rightarrow>
               (Inr (),
                trx\<lparr>issuance_rows := issuance_rows trx @
                  [\<lparr>block_id = blockId, total_issuance = totalIssuance,
                    network_id = NETWORK_ID env, row_time = now env\<rparr>]\<rparr>,
                [Insert_total_issuance blockId])))"

text \<open>
  \<^verbatim>\<open>knex.transaction(handler)\<close>: the handler works on the transaction's view of the store
  and says how it left the transaction. A commit installs the view; a rollback, or a
  rejection of the handler while the transaction is open, discards it. As in spec 4.1
  step 3, \<^verbatim>\<open>trx.rollback()\<close> followed by \<^verbatim>\<open>return\<close> raises nothing to the caller.
\<close>

datatype trx_phase = Trx_open | Trx_committed | Trx_rolled_back

definition knex_transaction ::
  "(store \<Rightarrow> unit promise \<times> store \<times> trx_phase \<times> tp_event list) \<Rightarrow> store \<Rightarrow>
     unit promise \<times> store \<times> tp_event list" where
  "knex_transaction handler s =
     (case handler s of
        (r, trx, Trx_committed, evs) \<Rightarrow> (r, trx, evs)
      | (r, trx, Trx_rolled_back, evs) \<Rightarrow> (r, s, evs)
      | (Inl e, trx, Trx_open, evs) \<Rightarrow> (Inl e, s, evs @ [Trx_rollback])
      | (Inr u, trx, Trx_open, evs) \<Rightarrow> (Inr u, trx, evs @ [Trx_commit]))"

definition warning_not_found :: string where
  "warning_not_found = ''Task record not found. Skip processing''"

definition warning_max_attempts :: string where
  "warning_max_attempts = ''Max attempts on block reached, cancel processing.''"

definition warning_duplication :: string where
  "warning_duplication = ''Possible block processing task duplication. Skip processing.''"

definition warning_already_processed :: string where
  "warning_already_processed = ''Block has been already processed. Skip processing.''"

text \<open>
  The handler passed to \<^verbatim>\<open>knex.transaction\<close> in \<^verbatim>\<open>processTaskMessage\<close>, check by check in
  the source's order. The log texts are the source's templates without the interpolated
  block id and tokens.
\<close>

definition transaction_handler ::
  "processor_env \<Rightarrow> task_message \<Rightarrow> store \<Rightarrow>
     unit promise \<times> store \<times> trx_phase \<times> tp_event list" where
  "transaction_handler env msg trx =
     (let blockId = entity_id msg in
      case readTaskAndLockRow blockId trx of
        None \<Rightarrow>
          (Inr (), trx, Trx_rolled_back,
           [Read_task_and_lock_row blockId, Trx_rollback, Log_warn warning_not_found])
      | Some taskRecord \<Rightarrow>
          if attempts taskRecord > MAX_ATTEMPTS env then
            (Inr (), trx, Trx_rolled_back,
             [Read_task_and_lock_row blockId, Trx_rollback, Log_warn warning_max_attempts])
          else if row_collect_uid taskRecord \<noteq> collect_uid msg then
            (Inr (), trx, Trx_rolled_back,
             [Read_task_and_lock_row blockId, Trx_rollback, Log_warn warning_duplication])
          else if status taskRecord \<noteq> NOT_PROCESSED then
            (Inr (), trx, Trx_rolled_back,
             [Read_task_and_lock_row blockId, Trx_rollback, Log_warn warning_already_processed])
          else
            (case processBlock_metadata env blockId trx of
               (Inl e, trx1, evs) \<Rightarrow>
                 (Inl e, trx1, Trx_open,
                  [Read_task_and_lock_row blockId, Log_info ''Start processing block''] @ evs)
             | (Inr u, trx1, evs) \<Rightarrow>
                 (Inr (), setTaskRecordAsProcessed blockId taskRecord trx1, Trx_committed,
                  [Read_task_and_lock_row blockId, Log_info ''Start processing block''] @ evs @
                  [Set_task_record_as_processed blockId, Trx_commit,
                   Log_info ''Block has been processed and committed''])))"

text \<open>
  \<^verbatim>\<open>processTaskMessage\<close>: the attempts counter first, on the store itself; then the
  transaction; a rejection of the transaction is logged with its message and thrown again.
\<close>

definition processTaskMessage ::
  "processor_env \<Rightarrow> task_message \<Rightarrow> store \<Rightarrow> unit promise \<times> store \<times> tp_event list" where
  "processTaskMessage env msg s =
     (let blockId = entity_id msg;
          s1 = increaseAttempts blockId s
      in case knex_transaction (transaction_handler env msg) s1 of
           (Inl e, s2, evs) \<Rightarrow>
             (Inl e, s2, Increase_attempts blockId # evs @ [Log_error (message e)])
         | (Inr u, s2, evs) \<Rightarrow> (Inr u, s2, Increase_attempts blockId # evs))"

section \<open>The block synchronisation driver\<close>

text \<open>
  \<^verbatim>\<open>BlocksService\<close>. The chain connector (\<^verbatim>\<open>PolkadotModule\<close>), the Kafka module, the
  extrinsics service and the block repository are collaborators whose code is not among
  the sources: their answers are parameters of the model.

  An \<^verbatim>\<open>Option\<close> codec read from the chain is \<^verbatim>\<open>null\<close>, an empty option or a value;
  an extended header is \<^verbatim>\<open>null\<close>, empty, or a header with its author if it has one.
\<close>

datatype raw_era = Era_null | Era_none | Era_some int

datatype ext_header = Header_null | Header_empty | Header "string option"

record event_record =
  event_section :: string
  event_method :: string
  event_payload :: string

record signed_block =
  header_number :: int
  header_hash :: string
  stateRoot :: string
  extrinsicsRoot :: string
  parentHash :: string
  digest_logs :: "string list"
  digest :: string
  extrinsics :: "string list"

record block_info =
  sessionId :: int
  blockCurrentEra :: int
  activeEra :: raw_era
  signedBlock :: "signed_block option"
  extHeader :: ext_header
  blockTime :: int
  events :: "event_record list"

text \<open>\<^verbatim>\<open>IEvent\<close>: the id, printed as height, dash, index, is kept as the pair it prints.\<close>

record i_event =
  event_id :: "int \<times> nat"
  i_section :: string
  i_method :: string
  i_payload :: string

record block_data =
  header_number' :: int
  header_hash' :: string
  author :: string
  session_id :: int
  header_currentEra :: int
  header_era :: int
  stateRoot' :: string
  extrinsicsRoot' :: string
  parentHash' :: string
  last_log :: string
  digest' :: string
  processed_events :: "i_event list"
  block_time :: int

text \<open>
  What the collaborators answer during one run of \<^verbatim>\<open>processBlock\<close>:
  \<^verbatim>\<open>getBlockHashByHeight(height)\<close> (\<^verbatim>\<open>null\<close> is \<open>None\<close>),
  \<^verbatim>\<open>getInfoToProcessBlock(blockHash)\<close>, and whether the Kafka send and the extraction of
  extrinsics reject. Each attempt of a worker has answers of its own, since a retry is
  there for failures that pass. The decoded data of an event is kept as one opaque payload.
\<close>

record block_attempt =
  hash_answer :: "int \<Rightarrow> string option promise"
  info_answer :: "string \<Rightarrow> block_info promise"
  send_rejection :: "error option"
  extract_rejection :: "error option"

text \<open>What one block job does and logs, in order.\<close>

datatype job_event =
    Process_block_info int string
  | Kafka_sendBlockData block_data
  | Extract_extrinsics int int int
  | Add_to_queue event_record string
  | Counter_inc
  | Worker_error int int error
  | Sleep int

definition processEvents :: "int \<Rightarrow> event_record list \<Rightarrow> i_event list" where
  "processEvents blockNumber evs =
     map (\<lambda>(eventIndex, record).
            \<lparr>event_id = (blockNumber, eventIndex), i_section = event_section record,
              i_method = event_method record, i_payload = event_payload record\<rparr>)
         (zip [0..<length evs] evs)"

definition findEraPayoutEvent :: "event_record list \<Rightarrow> event_record option" where
  "findEraPayoutEvent evs =
     find (\<lambda>event. event_section event = ''staking'' \<and> event_method event = ''EraPayout'') evs"

text \<open>
  \<^verbatim>\<open>processBlock(height)\<close>, the single-block pipeline. \<^verbatim>\<open>height\<close> is a number here, so the
  \<^verbatim>\<open>height == null\<close> throw cannot fire. \<^verbatim>\<open>activeEra.unwrap()\<close> runs before the check of
  \<^verbatim>\<open>signedBlock\<close> and throws on \<^verbatim>\<open>null\<close> and on an empty option.
\<close>

definition processBlock :: "block_attempt \<Rightarrow> int \<Rightarrow> job_event list \<times> unit promise" where
  "processBlock io height =
     (case hash_answer io height of
        Inl e \<Rightarrow> ([], Inl e)
      | Inr None \<Rightarrow> ([], Inl (Error ''cannot get block hash''))
      | Inr (Some blockHash) \<Rightarrow>
          (case info_answer io blockHash of
             Inl e \<Rightarrow> ([], Inl e)
           | Inr info \<Rightarrow>
               (case activeEra info of
                  Era_null \<Rightarrow> ([], Inl (Error ''TypeError: activeEra is null''))
                | Era_none \<Rightarrow> ([], Inl (Error ''Option: unwrapping a None value''))
                | Era_some era_index \<Rightarrow>
                    (case signedBlock info of
                       None \<Rightarrow> ([], Inl (Error ''cannot get block''))
                     | Some sb \<Rightarrow>
                         (let blockData =
                                \<lparr>header_number' = header_number sb,
                                  header_hash' = header_hash sb,
                                  author = (case extHeader info of
                                              Header (Some a) \<Rightarrow> a | _ \<Rightarrow> []),
                                  session_id = sessionId info,
                                  header_currentEra = blockCurrentEra info,
                                  header_era = era_index,
                                  stateRoot' = stateRoot sb,
                                  extrinsicsRoot' = extrinsicsRoot sb,
                                  parentHash' = parentHash sb,
                                  last_log = (if digest_logs sb = [] then []
                                              else last (digest_logs sb)),
                                  digest' = digest sb,
                                  processed_events =
                                    processEvents (header_number sb) (events info),
                                  block_time = blockTime info\<rparr>;
                              info_logged =
                                [Process_block_info (header_number sb) (header_hash sb)]
                          in case send_rejection io of
                               Some e \<Rightarrow> (info_logged, Inl e)
                             | None \<Rightarrow>
                                 (case extract_rejection io of
                                    Some e \<Rightarrow>
                                      (info_logged @ [Kafka_sendBlockData blockData], Inl e)
                                  | None \<Rightarrow>
                                      (info_logged @
                                       [Kafka_sendBlockData blockData,
                                        Extract_extrinsics era_index (sessionId info)
                                          (header_number sb)] @
                                       (case findEraPayoutEvent (events info) of
                                          Some eraPayoutEvent \<Rightarrow>
                                            [Add_to_queue eraPayoutEvent blockHash]
                                        | None \<Rightarrow> []) @
                                       [Counter_inc],
                                       Inr ())))))))"

text \<open>
  \<^verbatim>\<open>runBlocksWorker\<close>: the loop \<^verbatim>\<open>for (let attempts = 5; attempts > 0; attempts--)\<close>, as a
  function of the loop variable (\<open>attempts'\<close>, the name without the prime being the
  counter of a task row). The run with \<^verbatim>\<open>attempts\<close> left is attempt number
  \<open>5 - attempts\<close> of the job. A rejection of \<^verbatim>\<open>processBlock\<close> is caught: it is logged and
  kept in \<^verbatim>\<open>lastError\<close>, then the worker sleeps 2000 ms.
\<close>

fun runBlocksWorker_from ::
  "nat \<Rightarrow> (nat \<Rightarrow> block_attempt) \<Rightarrow> int \<Rightarrow> int \<Rightarrow> job_event list \<times> bool promise" where
  "runBlocksWorker_from 0 io workerId blockNumber = ([], Inr False)"
| "runBlocksWorker_from (Suc attempts') io workerId blockNumber =
     (case processBlock (io (5 - Suc attempts')) blockNumber of
        (evs, Inr u) \<Rightarrow> (evs, Inr True)
      | (evs, Inl lastError) \<Rightarrow>
          (case runBlocksWorker_from attempts' io workerId blockNumber of
             (later, r) \<Rightarrow>
               (evs @ [Worker_error workerId blockNumber lastError, Sleep 2000] @ later, r)))"

definition runBlocksWorker ::
  "(nat \<Rightarrow> block_attempt) \<Rightarrow> int \<Rightarrow> int \<Rightarrow> job_event list \<times> bool promise" where
  "runBlocksWorker io workerId blockNumber = runBlocksWorker_from 5 io workerId blockNumber"

text \<open>
  \<^verbatim>\<open>Promise.all\<close>: the values in order when every promise resolves, otherwise a rejection
  (of the promises that reject, the one listed first).
\<close>

fun promise_all :: "'a promise list \<Rightarrow> 'a list promise" where
  "promise_all [] = Inr []"
| "promise_all (Inl e # ps) = Inl e"
| "promise_all (Inr v # ps) = (case promise_all ps of Inl e \<Rightarrow> Inl e | Inr vs \<Rightarrow> Inr (v # vs))"

text \<open>A job of a chunk: worker id, height, what it did, and how its promise settled.\<close>

type_synonym job = "int \<times> int \<times> job_event list \<times> bool promise"

datatype sync_event =
    Logger_info string
  | Logger_error string
  | Chunk "job list"
  | Subscribe_finalized_heads
  | Trim_blocks_from int

text \<open>
  The state the driver works on: the \<^verbatim>\<open>SyncStatus\<close> mutex, the last processed height the
  block repository holds, how many times the finalized head has been asked for, and the
  record of what was dispatched and logged.
\<close>

record sync_state =
  locked :: bool
  lastProcessedBlock :: int
  fin_reads :: nat
  sync_log :: "sync_event list"

text \<open>
  The collaborators of the driver. \<^verbatim>\<open>getFinBlockNumber\<close> answers by the number of the call,
  since the finalized head moves. \<^verbatim>\<open>trimBlocksFrom\<close> maps the start height and the stored
  last processed height to the new one, or rejects.
\<close>

record sync_env =
  getBlockHashByHeight :: "int \<Rightarrow> string option promise"
  getHistoryDepth :: "string \<Rightarrow> int promise"
  getCurrentRawEra :: "string option \<Rightarrow> raw_era promise"
  getInfoToCheckHistoryDepth :: "string \<Rightarrow> (int option \<times> raw_era \<times> ext_header) promise"
  getFinBlockNumber :: "nat \<Rightarrow> int promise"
  getHeader :: "int promise"
  block_io :: "int \<Rightarrow> nat \<Rightarrow> block_attempt"
  repository_rejection :: "error option"
  trimBlocksFrom :: "int \<Rightarrow> int \<Rightarrow> int promise"

definition getLastProcessedBlock :: "sync_env \<Rightarrow> sync_state \<Rightarrow> int promise" where
  "getLastProcessedBlock env st =
     (case repository_rejection env of Some e \<Rightarrow> Inl e | None \<Rightarrow> Inr (lastProcessedBlock st))"

definition logged :: "sync_event list \<Rightarrow> sync_state \<Rightarrow> sync_state" where
  "logged evs st = st\<lparr>sync_log := sync_log st @ evs\<rparr>"

text \<open>
  \<^verbatim>\<open>checkHistoryDepthAvailableData\<close>. \<^verbatim>\<open>currentRawEra.unwrap()\<close> throws on \<^verbatim>\<open>null\<close> and on an
  empty option. \<^verbatim>\<open>blockRawEra == null\<close> is the \<^verbatim>\<open>null\<close> answer; an empty option prints as the
  empty string, \<^verbatim>\<open>parseInt\<close> makes it \<^verbatim>\<open>NaN\<close>, and the comparison with \<^verbatim>\<open>NaN\<close> is false.
\<close>

definition checkHistoryDepthAvailableData ::
  "sync_env \<Rightarrow> int \<Rightarrow> sync_event list \<times> bool promise" where
  "checkHistoryDepthAvailableData env blockNumber =
     (case getBlockHashByHeight env blockNumber of
        Inl e \<Rightarrow> ([], Inl e)
      | Inr None \<Rightarrow> ([Logger_error ''Cannot get block hash''], Inr False)
      | Inr (Some blockHash) \<Rightarrow>
          (case getHistoryDepth env blockHash of
             Inl e \<Rightarrow> ([], Inl e)
           | Inr historyDepth \<Rightarrow>
               (case getCurrentRawEra env None of
                  Inl e \<Rightarrow> ([], Inl e)
                | Inr currentRawEra \<Rightarrow>
                    (case getCurrentRawEra env (Some blockHash) of
                       Inl e \<Rightarrow> ([], Inl e)
                     | Inr Era_null \<Rightarrow> ([Logger_error ''Cannot get currentEra by hash''], Inr False)
                     | Inr blockRawEra \<Rightarrow>
                         (case currentRawEra of
                            Era_null \<Rightarrow> ([], Inl (Error ''TypeError: currentRawEra is null''))
                          | Era_none \<Rightarrow> ([], Inl (Error ''Option: unwrapping a None value''))
                          | Era_some current \<Rightarrow>
                              if (case blockRawEra of
                                    Era_some blockEra \<Rightarrow> current - blockEra > historyDepth
                                  | _ \<Rightarrow> False)
                              then
                                (case getInfoToCheckHistoryDepth env blockHash of
                                   Inl e \<Rightarrow>
                                     ([Logger_info ''The block height less than HISTORY_DEPTH value''],
                                      Inl e)
                                 | Inr (sessionId', activeEra', extHeader') \<Rightarrow>
                                     (let e1 = (if sessionId' = None
                                                then [Logger_error ''Cannot get sessionId for block'']
                                                else []);
                                          e2 = (if activeEra' = Era_null \<or> activeEra' = Era_none
                                                then [Logger_error ''Cannot get activeEra for block'']
                                                else []);
                                          e3 = (if extHeader' = Header_null \<or> extHeader' = Header_empty
                                                then [Logger_error ''Cannot get extHeader for block'']
                                                else []);
                                          hasError = (e1 @ e2 @ e3 \<noteq> [])
                                      in ([Logger_info ''The block height less than HISTORY_DEPTH value'']
                                          @ e1 @ e2 @ e3,
                                          Inr (\<not> hasError))))
                              else ([], Inr True))))))"

text \<open>
  JavaScript's \<^verbatim>\<open>%\<close> on integers: the remainder has the sign of the dividend.
\<close>

definition js_rem :: "int \<Rightarrow> int \<Rightarrow> int" where
  "js_rem a b = sgn a * (\<bar>a\<bar> mod \<bar>b\<bar>)"

text \<open>
  The chunk size of one iteration of the loop of \<^verbatim>\<open>processBlocks\<close>, and the jobs it
  dispatches: \<^verbatim>\<open>Array(chunk).fill('').map((_, i) => this.runBlocksWorker(i + 1, blockNumber + i))\<close>.
  In the loop \<open>blockNumber \<le> lastBlockNumber\<close>, so \<^verbatim>\<open>chunk\<close> is never negative.
\<close>

definition chunk_size :: "int \<Rightarrow> int \<Rightarrow> int" where
  "chunk_size blockNumber lastBlockNumber =
     (if lastBlockNumber - blockNumber \<ge> 10 then 10
      else js_rem (lastBlockNumber - blockNumber) 10)"

definition processTasks :: "sync_env \<Rightarrow> int \<Rightarrow> int \<Rightarrow> job list" where
  "processTasks env blockNumber chunk =
     map (\<lambda>i. (int i + 1, blockNumber + int i,
                runBlocksWorker (block_io env (blockNumber + int i)) (int i + 1)
                  (blockNumber + int i)))
         [0..<nat chunk]"

text \<open>
  The \<^verbatim>\<open>while (blockNumber <= lastBlockNumber)\<close> loop of \<^verbatim>\<open>processBlocks\<close>. The finalized
  head may grow for ever, so the loop has fuel, one unit per test of the loop condition:
  \<open>None\<close> is a loop still running when the fuel is spent. A rejection of \<^verbatim>\<open>Promise.all\<close> or
  of the read of the head leaves the loop as the rejection of \<^verbatim>\<open>processBlocks\<close>.
\<close>

fun processBlocks_loop ::
  "nat \<Rightarrow> sync_env \<Rightarrow> int \<Rightarrow> int \<Rightarrow> sync_state \<Rightarrow> (unit promise \<times> sync_state) option" where
  "processBlocks_loop 0 env blockNumber lastBlockNumber st = None"
| "processBlocks_loop (Suc fuel) env blockNumber lastBlockNumber st =
     (if blockNumber \<le> lastBlockNumber then
        (let chunk = chunk_size blockNumber lastBlockNumber;
             tasks' = processTasks env blockNumber chunk;
             st1 = logged [Chunk tasks'] st
         in case promise_all (map (\<lambda>(w, h, evs, r). r) tasks') of
              Inl e \<Rightarrow> Some (Inl e, st1)
            | Inr results \<Rightarrow>
                if blockNumber + 10 > lastBlockNumber then
                  (case getFinBlockNumber env (fin_reads st1) of
                     Inl e \<Rightarrow> Some (Inl e, st1\<lparr>fin_reads := Suc (fin_reads st1)\<rparr>)
                   | Inr head \<Rightarrow>
                       processBlocks_loop fuel env (blockNumber + 10) head
                         (st1\<lparr>fin_reads := Suc (fin_reads st1)\<rparr>))
                else processBlocks_loop fuel env (blockNumber + 10) lastBlockNumber st1)
      else Some (Inr (), st))"

text \<open>
  How a call that starts with \<^verbatim>\<open>SyncStatus.acquire()\<close> ends: settled, or suspended on the
  mutex, which nothing in this sequential model releases once it is held.
\<close>

datatype 'a outcome = Settled "'a promise" | Pending

text \<open>
  \<^verbatim>\<open>processBlocks(startBlockNumber, optionSubscribeFinHead)\<close>; both arguments default to
  \<^verbatim>\<open>null\<close> (\<open>None\<close>). The mutex is released on the two \<^verbatim>\<open>release()\<close> calls of the source and
  nowhere else: a rejection leaves it held.
\<close>

definition processBlocks ::
  "nat \<Rightarrow> sync_env \<Rightarrow> int option \<Rightarrow> bool option \<Rightarrow> sync_state \<Rightarrow>
     (unit outcome \<times> sync_state) option" where
  "processBlocks fuel env startBlockNumber optionSubscribeFinHead st =
     (if locked st then Some (Pending, st)
      else
        (let st1 = st\<lparr>locked := True\<rparr> in
         case (case startBlockNumber of
                 None \<Rightarrow> getLastProcessedBlock env st1
               | Some n \<Rightarrow> Inr n) of
           Inl e \<Rightarrow> Some (Settled (Inl e), st1)
         | Inr start \<Rightarrow>
             (let st2 = logged [Logger_info ''Starting processBlocks''] st1;
                  st3 = st2\<lparr>fin_reads := Suc (fin_reads st2)\<rparr>
              in case getFinBlockNumber env (fin_reads st2) of
                   Inl e \<Rightarrow> Some (Settled (Inl e), st3)
                 | Inr lastBlockNumber \<Rightarrow>
                     (let st4 = logged [Logger_info ''Processing blocks to head''] st3 in
                      case checkHistoryDepthAvailableData env start of
                        (evs, Inl e) \<Rightarrow> Some (Settled (Inl e), logged evs st4)
                      | (evs, Inr False) \<Rightarrow>
                          Some (Settled (Inr ()),
                                (logged (evs @
                                   [Logger_error
                                      ''Cannot receive storage data older than HISTORY_DEPTH''])
                                   st4)\<lparr>locked := False\<rparr>)
                      | (evs, Inr True) \<Rightarrow>
                          (case processBlocks_loop fuel env start lastBlockNumber
                                  (logged evs st4) of
                             None \<Rightarrow> None
                           | Some (Inl e, st5) \<Rightarrow> Some (Settled (Inl e), st5)
                           | Some (Inr u, st5) \<Rightarrow>
                               Some (Settled (Inr ()),
                                     (if optionSubscribeFinHead = Some True
                                      then logged [Subscribe_finalized_heads]
                                             (st5\<lparr>locked := False\<rparr>)
                                      else st5\<lparr>locked := False\<rparr>)))))))"

text \<open>\<^verbatim>\<open>getBlocksStatus\<close> and its result, \<^verbatim>\<open>IBlocksStatusResult\<close>.\<close>

record blocks_status =
  result_status :: string
  height_diff :: int
  fin_height_diff :: int

definition getBlocksStatus :: "sync_env \<Rightarrow> sync_state \<Rightarrow> blocks_status \<times> sync_state" where
  "getBlocksStatus env st =
     (let result = \<lparr>result_status = ''undefined'', height_diff = - 1, fin_height_diff = - 1\<rparr>;
          result1 = (if locked st then result\<lparr>result_status := ''synchronization''\<rparr>
                     else result\<lparr>result_status := ''synchronized''\<rparr>);
          st1 = st\<lparr>fin_reads := Suc (fin_reads st)\<rparr>
      in case getFinBlockNumber env (fin_reads st) of
           Inl err \<Rightarrow> (result1, logged [Logger_error ''failed to get block diff''] st1)
         | Inr lastBlockNumber \<Rightarrow>
             (case getHeader env of
                Inl err \<Rightarrow> (result1, logged [Logger_error ''failed to get block diff''] st1)
              | Inr lastHeader \<Rightarrow>
                  (case getLastProcessedBlock env st1 of
                     Inl err \<Rightarrow> (result1, logged [Logger_error ''failed to get block diff''] st1)
                   | Inr lastLocalNumber \<Rightarrow>
                       (result1\<lparr>height_diff := lastBlockNumber - lastLocalNumber,
                                fin_height_diff := lastHeader - lastBlockNumber\<rparr>,
                        st1))))"

text \<open>
  \<^verbatim>\<open>trimAndUpdateToFinalized\<close>; the result is the \<^verbatim>\<open>result\<close> field of the returned object.
  It calls \<^verbatim>\<open>processBlocks(startBlockNumber)\<close>, so it has the fuel of that loop.
\<close>

definition trimAndUpdateToFinalized ::
  "nat \<Rightarrow> sync_env \<Rightarrow> int \<Rightarrow> sync_state \<Rightarrow> (bool outcome \<times> sync_state) option" where
  "trimAndUpdateToFinalized fuel env startBlockNumber st =
     (if locked st then
        Some (Settled (Inr False),
              logged [Logger_error ''failed setup trimAndUpdateToFinalized: sync in process''] st)
      else
        (case trimBlocksFrom env startBlockNumber (lastProcessedBlock st) of
           Inl err \<Rightarrow>
             Some (Settled (Inr True),
                   logged [Trim_blocks_from startBlockNumber,
                           Logger_error ''failed to execute trimAndUpdateToFinalized''] st)
         | Inr kept \<Rightarrow>
             (case processBlocks fuel env (Some startBlockNumber) None
                     (logged [Trim_blocks_from startBlockNumber]
                        (st\<lparr>lastProcessedBlock := kept\<rparr>)) of
                None \<Rightarrow> None
              | Some (Pending, st1) \<Rightarrow> Some (Pending, st1)
              | Some (Settled (Inl err), st1) \<Rightarrow>
                  Some (Settled (Inr True),
                        logged [Logger_error ''failed to execute trimAndUpdateToFinalized''] st1)
              | Some (Settled (Inr u), st1) \<Rightarrow> Some (Settled (Inr True), st1))))"

text \<open>The heights of the jobs dispatched so far, chunk by chunk, read off the record.\<close>

fun chunk_heights :: "sync_event \<Rightarrow> int list list" where
  "chunk_heights (Chunk jobs) = [map (\<lambda>(w, h, evs, r). h) jobs]"
| "chunk_heights (Logger_info m) = []"
| "chunk_heights (Logger_error m) = []"
| "chunk_heights Subscribe_finalized_heads = []"
| "chunk_heights (Trim_blocks_from n) = []"

definition dispatched_heights :: "sync_state \<Rightarrow> int list list" where
  "dispatched_heights st = concat (map chunk_heights (sync_log st))"



fun is_worker_error :: "job_event \<Rightarrow> bool" where
  "is_worker_error (Worker_error w h e) = True"
| "is_worker_error (Process_block_info n h) = False"
| "is_worker_error (Kafka_sendBlockData d) = False"
| "is_worker_error (Extract_extrinsics a b c) = False"
| "is_worker_error (Add_to_queue ev h) = False"
| "is_worker_error Counter_inc = False"
| "is_worker_error (Sleep ms) = False"

definition failed_attempts :: "job_event list \<Rightarrow> nat" where
  "failed_attempts evs = length (filter is_worker_error evs)"

fun sleep_of :: "job_event \<Rightarrow> int list" where
  "sleep_of (Sleep ms) = [ms]"
| "sleep_of (Worker_error w h e) = []"
| "sleep_of (Process_block_info n h) = []"
| "sleep_of (Kafka_sendBlockData d) = []"
| "sleep_of (Extract_extrinsics a b c) = []"
| "sleep_of (Add_to_queue ev h) = []"
| "sleep_of Counter_inc = []"

definition sleeps :: "job_event list \<Rightarrow> int list" where
  "sleeps evs = concat (map sleep_of evs)"

section \<open>Era aggregation in the staking service\<close>

text \<open>
  \<^verbatim>\<open>StakingService.getValidatorsAndNominatorsData\<close>. Account ids and balances are the strings
  their \<^verbatim>\<open>toString()\<close> gives. An \<^verbatim>\<open>Exposure\<close> has the validator's totals and the list
  \<^verbatim>\<open>others\<close> of \<^verbatim>\<open>{who, value}\<close>. A payee is an account (\<^verbatim>\<open>isAccount\<close>, \<^verbatim>\<open>asAccount\<close>) or
  another destination, given by its \<^verbatim>\<open>toString()\<close>.
\<close>

record individual_exposure =
  who :: string
  exposure_value :: string

record exposure =
  exposure_total :: string
  exposure_own :: string
  others :: "individual_exposure list"

datatype payee = Payee_account string | Payee_other string

text \<open>
  \<^verbatim>\<open>INominator\<close> and \<^verbatim>\<open>IValidator\<close> share four fields. \<^verbatim>\<open>reward_dest\<close> and
  \<^verbatim>\<open>reward_account_id\<close> are optional: \<open>None\<close> is a field left undefined.
\<close>

record staking_record =
  era :: int
  account_id :: string
  reward_dest :: "string option"
  reward_account_id :: "string option"

record i_nominator = staking_record +
  validator :: string
  is_clipped :: bool
  nominator_value :: string

record i_validator = staking_record +
  total :: string
  own :: string
  nominators_count :: nat
  reward_points :: int
  prefs :: string

text \<open>
  The chain queries of the aggregation, each \<^verbatim>\<open>.at(blockHash, ...)\<close>. The individual reward
  points are the entries of the map in its iteration order.
\<close>

record staking_env =
  erasRewardPoints :: "string \<Rightarrow> int \<Rightarrow> (string \<times> int) list promise"
  erasValidatorPrefs :: "string \<Rightarrow> int \<Rightarrow> string \<Rightarrow> string promise"
  erasStakers :: "string \<Rightarrow> int \<Rightarrow> string \<Rightarrow> exposure promise"
  erasStakersClipped :: "string \<Rightarrow> int \<Rightarrow> string \<Rightarrow> exposure promise"
  payee_at :: "string \<Rightarrow> string \<Rightarrow> payee option promise"

datatype staking_event =
    Debug_loaded_stakers nat string
  | Error_cannot_process_staker string error
  | Warn_failed_to_get_payee string

text \<open>The two arrays the call fills, and what it logs.\<close>

record staking_acc =
  nominators :: "i_nominator list"
  validators :: "i_validator list"
  staking_log :: "staking_event list"

text \<open>
  The \<^verbatim>\<open>Set\<close> and the \<^verbatim>\<open>Map\<close> filled by \<^verbatim>\<open>eraRewardPointsRaw.individual.forEach\<close>: a set
  iterates in insertion order and keeps the first insertion of a key; a map keeps the last
  value set for a key.
\<close>

definition validatorsAccountIdSet :: "(string \<times> int) list \<Rightarrow> string list" where
  "validatorsAccountIdSet individual =
     fold (\<lambda>(accountId, rewardPoints) ids.
             if accountId \<in> set ids then ids else ids @ [accountId])
          individual []"

definition eraRewardPointsMap :: "(string \<times> int) list \<Rightarrow> string \<Rightarrow> int option" where
  "eraRewardPointsMap individual =
     fold (\<lambda>(accountId, rewardPoints) m. m(accountId \<mapsto> rewardPoints)) individual Map.empty"

text \<open>
  The two fields set from a payee, for a nominator and for a validator alike: nothing when
  the payee is falsy, the destination's name when it is not an account, and
  \<^verbatim>\<open>'Account'\<close> with the account otherwise.
\<close>

definition reward_fields :: "payee option \<Rightarrow> string option \<times> string option" where
  "reward_fields p =
     (case p of
        None \<Rightarrow> (None, None)
      | Some (Payee_other d) \<Rightarrow> (Some d, None)
      | Some (Payee_account a) \<Rightarrow> (Some ''Account'', Some a))"

text \<open>
  The body of the \<^verbatim>\<open>try\<close> in the loop over \<^verbatim>\<open>stakers.others\<close>, up to the push: the
  nominator of one staker, or the rejection of the payee lookup.
\<close>

definition staker_nominator ::
  "staking_env \<Rightarrow> string \<Rightarrow> int \<Rightarrow> string \<Rightarrow> exposure \<Rightarrow> individual_exposure \<Rightarrow>
     i_nominator promise" where
  "staker_nominator env blockHash eraId validatorAccountId stakersClipped staker =
     (let isClipped = find (\<lambda>e. who e = who staker) (others stakersClipped) in
      case payee_at env blockHash (who staker) of
        Inl e \<Rightarrow> Inl e
      | Inr p \<Rightarrow>
          Inr \<lparr>era = eraId, account_id = who staker,
               reward_dest = fst (reward_fields p), reward_account_id = snd (reward_fields p),
               validator = validatorAccountId, is_clipped = (isClipped = None),
               nominator_value = exposure_value staker\<rparr>)"

text \<open>The loop \<^verbatim>\<open>for (const staker of stakers.others)\<close> with its \<^verbatim>\<open>try\<close> and \<^verbatim>\<open>catch\<close>.\<close>

fun process_stakers ::
  "staking_env \<Rightarrow> string \<Rightarrow> int \<Rightarrow> string \<Rightarrow> exposure \<Rightarrow> individual_exposure list \<Rightarrow>
     staking_acc \<Rightarrow> staking_acc" where
  "process_stakers env blockHash eraId validatorAccountId stakersClipped [] acc = acc"
| "process_stakers env blockHash eraId validatorAccountId stakersClipped (staker # rest) acc =
     process_stakers env blockHash eraId validatorAccountId stakersClipped rest
       (case staker_nominator env blockHash eraId validatorAccountId stakersClipped staker of
          Inl e \<Rightarrow>
            acc\<lparr>staking_log := staking_log acc @ [Error_cannot_process_staker (who staker) e]\<rparr>
        | Inr nominator \<Rightarrow> acc\<lparr>nominators := nominators acc @ [nominator]\<rparr>)"

text \<open>The inner function \<^verbatim>\<open>processValidator\<close>.\<close>

definition processValidator ::
  "staking_env \<Rightarrow> string \<Rightarrow> int \<Rightarrow> (string \<Rightarrow> int option) \<Rightarrow> string \<Rightarrow> exposure \<Rightarrow> exposure \<Rightarrow>
     staking_acc \<Rightarrow> staking_acc promise" where
  "processValidator env blockHash eraId pointsMap validatorAccountId stakers stakersClipped acc =
     (case erasValidatorPrefs env blockHash eraId validatorAccountId of
        Inl e \<Rightarrow> Inl e
      | Inr prefs' \<Rightarrow>
          (let acc1 = process_stakers env blockHash eraId validatorAccountId stakersClipped
                        (others stakers)
                        (acc\<lparr>staking_log := staking_log acc @
                           [Debug_loaded_stakers (length (others stakers)) validatorAccountId]\<rparr>)
           in case payee_at env blockHash validatorAccountId of
                Inl e \<Rightarrow> Inl e
              | Inr validatorPayee \<Rightarrow>
                  (let acc2 = (if validatorPayee = None
                               then acc1\<lparr>staking_log := staking_log acc1 @
                                      [Warn_failed_to_get_payee validatorAccountId]\<rparr>
                               else acc1);
                       pointsFromMap = (case pointsMap validatorAccountId of
                                          Some points \<Rightarrow> points | None \<Rightarrow> 0)
                   in Inr (acc2\<lparr>validators := validators acc2 @
                             [\<lparr>era = eraId, account_id = validatorAccountId,
                               reward_dest = fst (reward_fields validatorPayee),
                               reward_account_id = snd (reward_fields validatorPayee),
                               total = exposure_total stakers, own = exposure_own stakers,
                               nominators_count = length (others stakers),
                               reward_points = pointsFromMap, prefs = prefs'\<rparr>]\<rparr>))))"

text \<open>
  The loop \<^verbatim>\<open>for (const validatorAccountId of validatorsAccountIdSet)\<close>: the two exposures
  (\<^verbatim>\<open>Promise.all\<close> of two reads), then \<^verbatim>\<open>processValidator\<close>; the first rejection ends the
  call.
\<close>

fun process_validators ::
  "staking_env \<Rightarrow> string \<Rightarrow> int \<Rightarrow> (string \<Rightarrow> int option) \<Rightarrow> string list \<Rightarrow> staking_acc \<Rightarrow>
     staking_acc promise" where
  "process_validators env blockHash eraId pointsMap [] acc = Inr acc"
| "process_validators env blockHash eraId pointsMap (validatorAccountId # rest) acc =
     (case erasStakers env blockHash eraId validatorAccountId of
        Inl e \<Rightarrow> Inl e
      | Inr stakers \<Rightarrow>
          (case erasStakersClipped env blockHash eraId validatorAccountId of
             Inl e \<Rightarrow> Inl e
           | Inr stakersClipped \<Rightarrow>
               (case processValidator env blockHash eraId pointsMap validatorAccountId
                       stakers stakersClipped acc of
                  Inl e \<Rightarrow> Inl e
                | Inr acc1 \<Rightarrow> process_validators env blockHash eraId pointsMap rest acc1)))"

definition getValidatorsAndNominatorsData ::
  "staking_env \<Rightarrow> string \<Rightarrow> int \<Rightarrow> staking_acc promise" where
  "getValidatorsAndNominatorsData env blockHash eraId =
     (case erasRewardPoints env blockHash eraId of
        Inl e \<Rightarrow> Inl e
      | Inr individual \<Rightarrow>
          process_validators env blockHash eraId (eraRewardPointsMap individual)
            (validatorsAccountIdSet individual)
            \<lparr>nominators = [], validators = [], staking_log = []\<rparr>)"

section \<open>Concrete inputs\<close>

text \<open>One task row with id 7, and an environment in which the chain and the insert answer.\<close>

definition fixture_env :: processor_env where
  "fixture_env = \<lparr>MAX_ATTEMPTS = 5, NETWORK_ID = 1, now = 0,
     chain_totalIssuance = (\<lambda>_. Inr ''1000''), insert_rejection = None\<rparr>"

definition fixture_store :: "processing_status \<Rightarrow> int \<Rightarrow> string \<Rightarrow> store" where
  "fixture_store st a uid =
     \<lparr>tasks = [7 \<mapsto> \<lparr>status = st, attempts = a, row_collect_uid = uid\<rparr>], issuance_rows = []\<rparr>"

text \<open>
  A chain whose finalized head stays at one height and whose every read and send succeeds,
  with an empty block at each height; and an idle driver whose repository holds height 99.
\<close>

definition steady_block :: "int \<Rightarrow> block_attempt" where
  "steady_block h =
     \<lparr>hash_answer = (\<lambda>height. Inr (Some ''0xabc'')),
      info_answer = (\<lambda>blockHash. Inr \<lparr>sessionId = 1, blockCurrentEra = 2, activeEra = Era_some 2,
        signedBlock = Some \<lparr>header_number = h, header_hash = ''0xabc'', stateRoot = ''0x1'',
          extrinsicsRoot = ''0x2'', parentHash = ''0x3'', digest_logs = [], digest = ''{}'',
          extrinsics = []\<rparr>,
        extHeader = Header None, blockTime = 0, events = []\<rparr>),
      send_rejection = None, extract_rejection = None\<rparr>"

definition steady_env :: "int \<Rightarrow> sync_env" where
  "steady_env head =
     \<lparr>getBlockHashByHeight = (\<lambda>h. Inr (Some ''0xabc'')),
      getHistoryDepth = (\<lambda>h. Inr 84),
      getCurrentRawEra = (\<lambda>h. Inr (Era_some 2)),
      getInfoToCheckHistoryDepth = (\<lambda>h. Inr (Some 1, Era_some 2, Header None)),
      getFinBlockNumber = (\<lambda>k. Inr head),
      getHeader = Inr (head + 2),
      block_io = (\<lambda>h k. steady_block h),
      repository_rejection = None,
      trimBlocksFrom = (\<lambda>start kept. Inr (min kept (start - 1)))\<rparr>"

definition idle_state :: sync_state where
  "idle_state = \<lparr>locked = False, lastProcessedBlock = 99, fin_reads = 0, sync_log = []\<rparr>"


text \<open>
  An era with two validators. \<open>V1\<close> has the stakers \<open>A\<close>, \<open>B\<close> and \<open>C\<close>, of which only \<open>A\<close>
  is in the clipped exposure; the payee lookup of \<open>B\<close> is rejected.
\<close>

definition era_env :: staking_env where
  "era_env =
     \<lparr>erasRewardPoints = (\<lambda>h e. Inr [(''V1'', 20), (''V2'', 40)]),
      erasValidatorPrefs = (\<lambda>h e v. Inr ''{commission: 0}''),
      erasStakers = (\<lambda>h e v.
         if v = ''V1'' then
           Inr \<lparr>exposure_total = ''60'', exposure_own = ''10'',
                others = [\<lparr>who = ''A'', exposure_value = ''30''\<rparr>,
                          \<lparr>who = ''B'', exposure_value = ''15''\<rparr>,
                          \<lparr>who = ''C'', exposure_value = ''5''\<rparr>]\<rparr>
         else Inr \<lparr>exposure_total = ''7'', exposure_own = ''7'', others = []\<rparr>),
      erasStakersClipped = (\<lambda>h e v.
         if v = ''V1'' then
           Inr \<lparr>exposure_total = ''40'', exposure_own = ''10'',
                others = [\<lparr>who = ''A'', exposure_value = ''30''\<rparr>]\<rparr>
         else Inr \<lparr>exposure_total = ''7'', exposure_own = ''7'', others = []\<rparr>),
      payee_at = (\<lambda>h a. if a = ''B'' then Inl (Error ''payee lookup failed'')
                         else if a = ''A'' then Inr (Some (Payee_account ''A2''))
                         else Inr (Some (Payee_other ''Staked'')))\<rparr>"

section \<open>The task processor: attempts and fencing\<close>

lemma increaseAttempts_row:
  "tasks s k = Some t \<Longrightarrow>
     tasks (increaseAttempts k s) k = Some (t\<lparr>attempts := attempts t + 1\<rparr>)"
  by (simp add: increaseAttempts_def)

lemma processBlock_metadata_tasks:
  "processBlock_metadata env k trx = (r, trx1, evs) \<Longrightarrow> tasks trx1 = tasks trx"
  by (auto simp: processBlock_metadata_def split: sum.splits option.splits)

text \<open>
  Claim C2. For every task row and every delivery message, whatever the outcome of
  \<^verbatim>\<open>processTaskMessage\<close> (commit, abort on a validity check, or a rejection of the transform
  thrown again), the stored attempts counter of the row is one more than before. The
  increment is the first call, before the row is read for the checks, and the checks see
  the incremented counter: the max-attempts warning is logged exactly when the old counter
  plus one exceeds \<^verbatim>\<open>MAX_ATTEMPTS\<close>.
\<close>

theorem processTaskMessage_attempts:
  assumes "tasks s (entity_id msg) = Some t"
  shows "case processTaskMessage env msg s of (r, s', evs) \<Rightarrow>
           (\<exists>t'. tasks s' (entity_id msg) = Some t' \<and> attempts t' = attempts t + 1) \<and>
           (\<exists>rest. evs = Increase_attempts (entity_id msg) #
                          Read_task_and_lock_row (entity_id msg) # rest) \<and>
           (Log_warn warning_max_attempts \<in> set evs \<longleftrightarrow> attempts t + 1 > MAX_ATTEMPTS env)"
proof -
  let ?k = "entity_id msg"
  let ?s1 = "increaseAttempts ?k s"
  have row: "tasks ?s1 ?k = Some (t\<lparr>attempts := attempts t + 1\<rparr>)"
    using assms by (rule increaseAttempts_row)
  obtain pr ptrx pevs where pb: "processBlock_metadata env ?k ?s1 = (pr, ptrx, pevs)"
    by (cases "processBlock_metadata env ?k ?s1") auto
  have pt: "tasks ptrx = tasks ?s1"
    using pb by (rule processBlock_metadata_tasks)
  have pe: "Log_warn warning_max_attempts \<notin> set pevs"
    using pb by (auto simp: processBlock_metadata_def split: sum.splits option.splits)
  show ?thesis
    using row pb pt pe
    by (cases pr)
      (auto simp: processTaskMessage_def knex_transaction_def transaction_handler_def
        readTaskAndLockRow_def setTaskRecordAsProcessed_def Let_def
        warning_max_attempts_def warning_duplication_def warning_already_processed_def)
qed

text \<open>
  The theorem at two deliveries for row 7 with a matching token: one commits (the row
  becomes \<open>PROCESSED\<close> with one attempt), one has its transform rejected by the chain (the
  rejection reaches the caller, the row stays \<open>NOT_PROCESSED\<close> with one attempt).
\<close>

theorem processTaskMessage_attempts_witness:
  "fst (processTaskMessage fixture_env \<lparr>entity_id = 7, collect_uid = ''a''\<rparr>
          (fixture_store NOT_PROCESSED 0 ''a'')) = Inr () \<and>
   tasks (fst (snd (processTaskMessage fixture_env \<lparr>entity_id = 7, collect_uid = ''a''\<rparr>
          (fixture_store NOT_PROCESSED 0 ''a'')))) 7 =
     Some \<lparr>status = PROCESSED, attempts = 1, row_collect_uid = ''a''\<rparr> \<and>
   fst (processTaskMessage (fixture_env\<lparr>chain_totalIssuance := (\<lambda>_. Inl (Error ''rpc''))\<rparr>)
          \<lparr>entity_id = 7, collect_uid = ''a''\<rparr> (fixture_store NOT_PROCESSED 0 ''a'')) =
     Inl (Error ''rpc'') \<and>
   tasks (fst (snd (processTaskMessage
          (fixture_env\<lparr>chain_totalIssuance := (\<lambda>_. Inl (Error ''rpc''))\<rparr>)
          \<lparr>entity_id = 7, collect_uid = ''a''\<rparr> (fixture_store NOT_PROCESSED 0 ''a'')))) 7 =
     Some \<lparr>status = NOT_PROCESSED, attempts = 1, row_collect_uid = ''a''\<rparr>"
  using processTaskMessage_attempts
    [of "fixture_store NOT_PROCESSED 0 ''a''" "\<lparr>entity_id = 7, collect_uid = ''a''\<rparr>"
        "\<lparr>status = NOT_PROCESSED, attempts = 0, row_collect_uid = ''a''\<rparr>" fixture_env]
    processTaskMessage_attempts
    [of "fixture_store NOT_PROCESSED 0 ''a''" "\<lparr>entity_id = 7, collect_uid = ''a''\<rparr>"
        "\<lparr>status = NOT_PROCESSED, attempts = 0, row_collect_uid = ''a''\<rparr>"
        "fixture_env\<lparr>chain_totalIssuance := (\<lambda>_. Inl (Error ''rpc''))\<rparr>"]
  by (simp add: processTaskMessage_def knex_transaction_def transaction_handler_def
      readTaskAndLockRow_def setTaskRecordAsProcessed_def increaseAttempts_def
      processBlock_metadata_def Let_def fixture_store_def fixture_env_def)

text \<open>
  Claim C3, as stated, fails twice on a delivery whose token differs from the stored one.
  With row 7 at 0 attempts the store is written: the attempts counter of the row becomes 1.
  With row 7 at 5 attempts (the maximum of the environment) the max-attempts check comes
  first, and the duplication warning is not logged.
\<close>

theorem processTaskMessage_token_mismatch_counterexample:
  "tasks (fixture_store NOT_PROCESSED 0 ''a'') 7 =
     Some \<lparr>status = NOT_PROCESSED, attempts = 0, row_collect_uid = ''a''\<rparr> \<and>
   row_collect_uid \<lparr>status = NOT_PROCESSED, attempts = 0, row_collect_uid = ''a''\<rparr> \<noteq> ''b'' \<and>
   tasks (fst (snd (processTaskMessage fixture_env \<lparr>entity_id = 7, collect_uid = ''b''\<rparr>
      (fixture_store NOT_PROCESSED 0 ''a'')))) 7 \<noteq> tasks (fixture_store NOT_PROCESSED 0 ''a'') 7 \<and>
   Log_warn warning_duplication \<notin> set (snd (snd (processTaskMessage fixture_env
      \<lparr>entity_id = 7, collect_uid = ''b''\<rparr> (fixture_store NOT_PROCESSED 5 ''a''))))"
  by (simp add: processTaskMessage_def knex_transaction_def transaction_handler_def
      readTaskAndLockRow_def increaseAttempts_def Let_def fixture_store_def fixture_env_def
      warning_duplication_def warning_max_attempts_def)

text \<open>
  Claim C3, amended. For every delivery message whose token differs from the token stored
  on the task row, \<^verbatim>\<open>processTaskMessage\<close> raises nothing, and the only write to the store
  is the attempts increment of that row: its status and token, every other row and the
  issuance rows stay as they were. The transaction is rolled back, and exactly one warning
  is logged: the duplication warning, or the max-attempts warning when the incremented
  counter exceeds \<^verbatim>\<open>MAX_ATTEMPTS\<close>.
\<close>

theorem processTaskMessage_token_mismatch:
  assumes "tasks s (entity_id msg) = Some t" and "row_collect_uid t \<noteq> collect_uid msg"
  shows "case processTaskMessage env msg s of (r, s', evs) \<Rightarrow>
           r = Inr () \<and>
           tasks s' = (tasks s)(entity_id msg \<mapsto> t\<lparr>attempts := attempts t + 1\<rparr>) \<and>
           issuance_rows s' = issuance_rows s \<and>
           evs = [Increase_attempts (entity_id msg), Read_task_and_lock_row (entity_id msg),
                  Trx_rollback,
                  Log_warn (if attempts t + 1 > MAX_ATTEMPTS env then warning_max_attempts
                            else warning_duplication)]"
proof -
  let ?k = "entity_id msg"
  have row: "tasks (increaseAttempts ?k s) ?k = Some (t\<lparr>attempts := attempts t + 1\<rparr>)"
    using assms(1) by (rule increaseAttempts_row)
  have st: "increaseAttempts ?k s =
      s\<lparr>tasks := (tasks s)(?k \<mapsto> t\<lparr>attempts := attempts t + 1\<rparr>)\<rparr>"
    using assms(1) by (simp add: increaseAttempts_def)
  show ?thesis
    using row assms(2)
    by (simp add: processTaskMessage_def knex_transaction_def transaction_handler_def
        readTaskAndLockRow_def Let_def st)
qed

theorem processTaskMessage_token_mismatch_witness:
  "processTaskMessage fixture_env \<lparr>entity_id = 7, collect_uid = ''b''\<rparr>
       (fixture_store NOT_PROCESSED 0 ''a'') =
     (Inr (),
      \<lparr>tasks = [7 \<mapsto> \<lparr>status = NOT_PROCESSED, attempts = 1, row_collect_uid = ''a''\<rparr>],
        issuance_rows = []\<rparr>,
      [Increase_attempts 7, Read_task_and_lock_row 7, Trx_rollback,
       Log_warn warning_duplication])"
  using processTaskMessage_token_mismatch
    [of "fixture_store NOT_PROCESSED 0 ''a''" "\<lparr>entity_id = 7, collect_uid = ''b''\<rparr>"
        "\<lparr>status = NOT_PROCESSED, attempts = 0, row_collect_uid = ''a''\<rparr>" fixture_env]
  by (cases "processTaskMessage fixture_env \<lparr>entity_id = 7, collect_uid = ''b''\<rparr>
       (fixture_store NOT_PROCESSED 0 ''a'')")
     (simp add: fixture_store_def fixture_env_def)

section \<open>The driver: chunks, the guard, retries, status and trimming\<close>

lemma chunk_size_in_loop:
  "blockNumber \<le> lastBlockNumber \<Longrightarrow>
     chunk_size blockNumber lastBlockNumber = min 10 (lastBlockNumber - blockNumber)"
  by (cases "lastBlockNumber = blockNumber") (auto simp: chunk_size_def js_rem_def)

lemma dispatched_heights_logged:
  "dispatched_heights (logged evs st) = dispatched_heights st @ concat (map chunk_heights evs)"
  by (simp add: dispatched_heights_def logged_def)

lemma guard_logs_no_chunk:
  "checkHistoryDepthAvailableData env n = (evs, r) \<Longrightarrow> concat (map chunk_heights evs) = []"
  by (auto simp: checkHistoryDepthAvailableData_def Let_def
      split: sum.splits option.splits raw_era.splits prod.splits if_splits)

lemma processBlock_quiet:
  "processBlock io h = (evs, r) \<Longrightarrow> failed_attempts evs = 0 \<and> sleeps evs = []"
  by (auto simp: processBlock_def failed_attempts_def sleeps_def Let_def
      split: sum.splits option.splits raw_era.splits)

lemma failed_attempts_append: "failed_attempts (xs @ ys) = failed_attempts xs + failed_attempts ys"
  by (simp add: failed_attempts_def)

lemma sleeps_append: "sleeps (xs @ ys) = sleeps xs @ sleeps ys"
  by (simp add: sleeps_def)

text \<open>
  The worker loop with \<open>n\<close> attempts left always resolves. It sleeps 2000 ms once per logged
  failure, and its result is true exactly when one of the remaining attempts succeeds.
\<close>

lemma runBlocksWorker_from_shape:
  "n \<le> 5 \<Longrightarrow> \<exists>evs b. runBlocksWorker_from n io w h = (evs, Inr b) \<and>
     sleeps evs = replicate (failed_attempts evs) 2000 \<and>
     (if b then failed_attempts evs < n else failed_attempts evs = n) \<and>
     (b \<longleftrightarrow> (\<exists>k. 5 - n \<le> k \<and> k < 5 \<and> snd (processBlock (io k) h) = Inr ()))"
proof (induction n)
  case 0
  then show ?case by (simp add: failed_attempts_def sleeps_def)
next
  case (Suc n)
  then obtain evs b where ih: "runBlocksWorker_from n io w h = (evs, Inr b)"
    "sleeps evs = replicate (failed_attempts evs) 2000"
    "if b then failed_attempts evs < n else failed_attempts evs = n"
    "b \<longleftrightarrow> (\<exists>k. 5 - n \<le> k \<and> k < 5 \<and> snd (processBlock (io k) h) = Inr ())"
    by auto
  obtain pevs pr where pb: "processBlock (io (5 - Suc n)) h = (pevs, pr)"
    by (cases "processBlock (io (5 - Suc n)) h") auto
  have q: "failed_attempts pevs = 0" "sleeps pevs = []"
    using processBlock_quiet[OF pb] by auto
  show ?case
  proof (cases pr)
    case (Inr u)
    have "\<exists>k\<ge>5 - Suc n. k < 5 \<and> snd (processBlock (io k) h) = Inr ()"
      using pb Inr Suc.prems by (intro exI[of _ "5 - Suc n"]) auto
    then show ?thesis using pb Inr q by auto
  next
    case (Inl e)
    have idx: "\<And>k. (5 - Suc n \<le> k \<and> k < 5 \<and> snd (processBlock (io k) h) = Inr ()) \<longleftrightarrow>
                 (5 - n \<le> k \<and> k < 5 \<and> snd (processBlock (io k) h) = Inr ())"
    proof -
      fix k
      have "k = 5 - Suc n \<Longrightarrow> snd (processBlock (io k) h) \<noteq> Inr ()"
        using pb Inl by auto
      moreover have "5 - Suc n \<le> k \<longleftrightarrow> k = 5 - Suc n \<or> 5 - n \<le> k"
        using Suc.prems by auto
      ultimately show "?thesis k" by auto
    qed
    have run: "runBlocksWorker_from (Suc n) io w h =
        (pevs @ [Worker_error w h e, Sleep 2000] @ evs, Inr b)"
      using pb Inl ih(1) by simp
    let ?all = "pevs @ [Worker_error w h e, Sleep 2000] @ evs"
    have fa: "failed_attempts ?all = Suc (failed_attempts evs)"
      using q(1) by (simp add: failed_attempts_def)
    have sl: "sleeps ?all = replicate (failed_attempts ?all) 2000"
      using q(2) ih(2) fa by (simp add: sleeps_def)
    have cnt: "if b then failed_attempts ?all < Suc n else failed_attempts ?all = Suc n"
      using ih(3) fa by (simp split: if_splits)
    have res: "b \<longleftrightarrow> (\<exists>k. 5 - Suc n \<le> k \<and> k < 5 \<and> snd (processBlock (io k) h) = Inr ())"
      using ih(4) idx by simp
    show ?thesis
      using run sl cnt res by blast
  qed
qed

lemma promise_all_resolved:
  "\<forall>p \<in> set ps. \<exists>v. p = Inr v \<Longrightarrow> \<exists>vs. promise_all ps = Inr vs \<and> length vs = length ps"
  by (induction ps) auto

lemma processTasks_resolve:
  "\<exists>results. promise_all (map (\<lambda>(w, h, evs, r). r) (processTasks env blockNumber chunk)) =
       Inr results \<and> length results = nat chunk"
proof -
  have "\<forall>p \<in> set (map (\<lambda>(w, h, evs, r). r) (processTasks env blockNumber chunk)). \<exists>v. p = Inr v"
  proof
    fix p assume "p \<in> set (map (\<lambda>(w, h, evs, r). r) (processTasks env blockNumber chunk))"
    then obtain i where "p = snd (runBlocksWorker (block_io env (blockNumber + int i)) (int i + 1)
                  (blockNumber + int i))"
      by (auto simp: processTasks_def case_prod_beta)
    moreover obtain evs b where "runBlocksWorker (block_io env (blockNumber + int i)) (int i + 1)
                  (blockNumber + int i) = (evs, Inr b)"
      using runBlocksWorker_from_shape[of 5] unfolding runBlocksWorker_def by blast
    ultimately show "\<exists>v. p = Inr v" by simp
  qed
  from promise_all_resolved[OF this] show ?thesis
    by (simp add: processTasks_def)
qed

text \<open>One iteration of the loop, with \<^verbatim>\<open>Promise.all\<close> known to resolve.\<close>

lemma processBlocks_loop_step:
  assumes "blockNumber \<le> lastBlockNumber"
  shows "processBlocks_loop (Suc fuel) env blockNumber lastBlockNumber st =
     (let st1 = logged [Chunk (processTasks env blockNumber (chunk_size blockNumber lastBlockNumber))] st
      in if blockNumber + 10 > lastBlockNumber then
           (case getFinBlockNumber env (fin_reads st1) of
              Inl e \<Rightarrow> Some (Inl e, st1\<lparr>fin_reads := Suc (fin_reads st1)\<rparr>)
            | Inr head \<Rightarrow> processBlocks_loop fuel env (blockNumber + 10) head
                            (st1\<lparr>fin_reads := Suc (fin_reads st1)\<rparr>))
         else processBlocks_loop fuel env (blockNumber + 10) lastBlockNumber st1)"
proof -
  obtain results where "promise_all (map (\<lambda>(w, h, evs, r). r)
      (processTasks env blockNumber (chunk_size blockNumber lastBlockNumber))) = Inr results"
    using processTasks_resolve by blast
  then show ?thesis using assms by (simp add: Let_def)
qed

text \<open>
  If the finalized head never answers above \<open>H\<close>, the loop ends within
  \<open>H + 1 - blockNumber\<close> iterations (and one more test of its condition).
\<close>

lemma processBlocks_loop_terminates:
  assumes bound: "\<forall>k head. getFinBlockNumber env k = Inr head \<longrightarrow> head \<le> H"
  shows "lastBlockNumber \<le> H \<Longrightarrow> nat (H + 1 - blockNumber) \<le> n \<Longrightarrow>
         processBlocks_loop (Suc n) env blockNumber lastBlockNumber st \<noteq> None"
proof (induction n arbitrary: blockNumber lastBlockNumber st)
  case 0
  then show ?case by simp
next
  case (Suc n)
  show ?case
  proof (cases "blockNumber \<le> lastBlockNumber")
    case False
    then show ?thesis by simp
  next
    case True
    let ?st1 = "logged [Chunk (processTasks env blockNumber (chunk_size blockNumber lastBlockNumber))] st"
    have m: "nat (H + 1 - (blockNumber + 10)) \<le> n"
      using True Suc.prems by linarith
    show ?thesis
    proof (cases "blockNumber + 10 > lastBlockNumber")
      case False
      then show ?thesis
        using Suc.IH[OF Suc.prems(1) m, of ?st1]
        by (simp add: processBlocks_loop_step[OF True] Let_def del: processBlocks_loop.simps)
    next
      case gt: True
      show ?thesis
      proof (cases "getFinBlockNumber env (fin_reads ?st1)")
        case (Inl e)
        then show ?thesis using gt
          by (simp add: processBlocks_loop_step[OF True] Let_def del: processBlocks_loop.simps)
      next
        case (Inr head)
        then have "head \<le> H" using bound by blast
        from Suc.IH[OF this m] show ?thesis using gt Inr
          by (simp add: processBlocks_loop_step[OF True] Let_def del: processBlocks_loop.simps)
      qed
    qed
  qed
qed

lemma processBlocks_settles:
  assumes bound: "\<forall>k head. getFinBlockNumber env k = Inr head \<longrightarrow> head \<le> H"
    and free: "\<not> locked st"
  shows "\<exists>r st'. processBlocks (Suc (nat (H + 1 - start))) env (Some start) sub st =
           Some (Settled r, st')"
proof -
  let ?st2 = "logged [Logger_info ''Starting processBlocks''] (st\<lparr>locked := True\<rparr>)"
  let ?st3 = "?st2\<lparr>fin_reads := Suc (fin_reads ?st2)\<rparr>"
  let ?st4 = "logged [Logger_info ''Processing blocks to head''] ?st3"
  show ?thesis
  proof (cases "getFinBlockNumber env (fin_reads ?st2)")
    case (Inl e)
    then show ?thesis using free by (simp add: processBlocks_def Let_def)
  next
    case (Inr last)
    then have le: "last \<le> H" using bound by blast
    obtain evs g where guard: "checkHistoryDepthAvailableData env start = (evs, g)"
      by (cases "checkHistoryDepthAvailableData env start") auto
    have loop: "processBlocks_loop (Suc (nat (H + 1 - start))) env start last (logged evs ?st4)
                  \<noteq> None"
      using processBlocks_loop_terminates[OF bound le, of start "nat (H + 1 - start)"] by simp
    then obtain lr st5 where l5:
      "processBlocks_loop (Suc (nat (H + 1 - start))) env start last (logged evs ?st4) =
         Some (lr, st5)"
      by (cases "processBlocks_loop (Suc (nat (H + 1 - start))) env start last (logged evs ?st4)")
        auto
    show ?thesis
    proof (cases g)
      case (Inl e)
      then show ?thesis using free Inr guard by (simp add: processBlocks_def Let_def)
    next
      case gr: (Inr ok)
      show ?thesis
      proof (cases ok)
        case False
        then show ?thesis using free Inr guard gr by (simp add: processBlocks_def Let_def)
      next
        case True
        then show ?thesis using free Inr guard gr l5
          by (cases lr) (simp_all add: processBlocks_def Let_def del: processBlocks_loop.simps)
      qed
    qed
  qed
qed

text \<open>
  Claim C1. The claim gives the chunk size as \<open>min(10, headHeight - currentHeight + 1)\<close> and
  two chunks of 10 jobs for the heights 100 to 119. The code computes
  \<^verbatim>\<open>lastBlockNumber - blockNumber\<close> where that difference is below 10: at start height 100
  with the finalized head at 119 it dispatches the heights 100 to 109 and then the nine
  heights 110 to 118, and returns without a job for height 119.
\<close>

theorem processBlocks_head_119:
  "chunk_size 110 119 = 9 \<and> min 10 (119 - 110 + 1) = (10::int) \<and>
   map_option (\<lambda>(r, st). (r, dispatched_heights st))
     (processBlocks 3 (steady_env 119) (Some 100) None idle_state) =
   Some (Settled (Inr ()),
         [[100, 101, 102, 103, 104, 105, 106, 107, 108, 109],
          [110, 111, 112, 113, 114, 115, 116, 117, 118]])"
  by code_simp

text \<open>
  Claim C4. If the history-depth guard fails (returns false) for the start height, then
  \<^verbatim>\<open>processBlocks\<close>, called with the mutex free and with the start height and the
  finalized head read, returns whatever the fuel of the loop: no job is dispatched, the
  last processed height of the repository is unchanged, the mutex is released, and the only
  effects are the two info records, the guard's own records and the error record.
\<close>

theorem processBlocks_guard_failure:
  assumes "\<not> locked st"
    and "(case startBlockNumber of None \<Rightarrow> getLastProcessedBlock env st | Some n \<Rightarrow> Inr n)
           = Inr start"
    and "getFinBlockNumber env (fin_reads st) = Inr head"
    and "checkHistoryDepthAvailableData env start = (evs, Inr False)"
  shows "\<exists>st'. processBlocks fuel env startBlockNumber optionSubscribeFinHead st =
             Some (Settled (Inr ()), st') \<and>
           \<not> locked st' \<and>
           lastProcessedBlock st' = lastProcessedBlock st \<and>
           dispatched_heights st' = dispatched_heights st \<and>
           sync_log st' = sync_log st @
             [Logger_info ''Starting processBlocks'', Logger_info ''Processing blocks to head''] @
             evs @ [Logger_error ''Cannot receive storage data older than HISTORY_DEPTH'']"
proof -
  have start: "(case startBlockNumber of
                  None \<Rightarrow> getLastProcessedBlock env (st\<lparr>locked := True\<rparr>)
                | Some n \<Rightarrow> Inr n) = Inr start"
    using assms(2) by (simp add: getLastProcessedBlock_def split: option.splits)
  have nochunk: "concat (map chunk_heights evs) = []"
    using assms(4) by (rule guard_logs_no_chunk)
  show ?thesis
    using assms(1,3,4) start nochunk
    by (simp add: processBlocks_def Let_def logged_def dispatched_heights_def)
qed

text \<open>The guard fails where the chain has no hash for the start height.\<close>

theorem processBlocks_guard_failure_witness:
  "\<exists>st'. processBlocks 0 ((steady_env 119)\<lparr>getBlockHashByHeight := (\<lambda>h. Inr None)\<rparr>)
            (Some 100) (Some True) idle_state = Some (Settled (Inr ()), st') \<and>
         \<not> locked st' \<and> lastProcessedBlock st' = 99 \<and> dispatched_heights st' = [] \<and>
         sync_log st' =
           [Logger_info ''Starting processBlocks'', Logger_info ''Processing blocks to head'',
            Logger_error ''Cannot get block hash'',
            Logger_error ''Cannot receive storage data older than HISTORY_DEPTH'']"
  using processBlocks_guard_failure
    [where st = idle_state and startBlockNumber = "Some 100" and start = 100 and head = 119
       and env = "(steady_env 119)\<lparr>getBlockHashByHeight := (\<lambda>h. Inr None)\<rparr>"
       and evs = "[Logger_error ''Cannot get block hash'']" and fuel = 0
       and optionSubscribeFinHead = "Some True"]
  by (simp add: idle_state_def steady_env_def checkHistoryDepthAvailableData_def
      dispatched_heights_def)



text \<open>
  Claim C8, as stated, fails: with the mutex held the status is the string
  \<open>synchronization\<close>, not \<open>synchronizing\<close>.
\<close>

theorem getBlocksStatus_counterexample:
  "locked (idle_state\<lparr>locked := True\<rparr>) \<and>
   result_status (fst (getBlocksStatus (steady_env 119) (idle_state\<lparr>locked := True\<rparr>))) \<noteq>
     ''synchronizing'' \<and>
   result_status (fst (getBlocksStatus (steady_env 119) (idle_state\<lparr>locked := True\<rparr>))) =
     ''synchronization''"
  by (simp add: getBlocksStatus_def getLastProcessedBlock_def Let_def idle_state_def
      steady_env_def)

text \<open>
  Claim C8, amended. \<^verbatim>\<open>getBlocksStatus\<close> returns the status \<open>synchronization\<close> when the
  mutex is held and \<open>synchronized\<close> otherwise. When the three reads succeed,
  \<open>height_diff\<close> is the finalized head minus the last processed height and
  \<open>fin_height_diff\<close> is the chain head minus the finalized head; when one of them is
  rejected, both stay \<open>-1\<close>.
\<close>

theorem getBlocksStatus_result:
  "result_status (fst (getBlocksStatus env st)) =
     (if locked st then ''synchronization'' else ''synchronized'') \<and>
   (case (getFinBlockNumber env (fin_reads st), getHeader env, repository_rejection env) of
      (Inr lastBlockNumber, Inr lastHeader, None) \<Rightarrow>
        height_diff (fst (getBlocksStatus env st)) = lastBlockNumber - lastProcessedBlock st \<and>
        fin_height_diff (fst (getBlocksStatus env st)) = lastHeader - lastBlockNumber
    | _ \<Rightarrow>
        height_diff (fst (getBlocksStatus env st)) = - 1 \<and>
        fin_height_diff (fst (getBlocksStatus env st)) = - 1)"
  by (simp add: getBlocksStatus_def getLastProcessedBlock_def Let_def
      split: sum.splits option.splits)

text \<open>
  A sync pass only appends to the record and never writes the last processed height; the
  loop leaves the mutex as it found it.
\<close>

lemma processBlocks_loop_extends:
  "processBlocks_loop fuel env blockNumber lastBlockNumber st = Some (r, st') \<Longrightarrow>
     (\<exists>xs. sync_log st' = sync_log st @ xs) \<and>
     lastProcessedBlock st' = lastProcessedBlock st \<and> locked st' = locked st"
proof (induction fuel arbitrary: blockNumber lastBlockNumber st)
  case 0
  then show ?case by simp
next
  case (Suc fuel)
  show ?case
  proof (cases "blockNumber \<le> lastBlockNumber")
    case False
    then show ?thesis using Suc.prems by simp
  next
    case True
    let ?st1 = "logged [Chunk (processTasks env blockNumber
                                 (chunk_size blockNumber lastBlockNumber))] st"
    let ?st2 = "?st1\<lparr>fin_reads := Suc (fin_reads ?st1)\<rparr>"
    have base1: "(\<exists>xs. sync_log ?st1 = sync_log st @ xs) \<and>
        lastProcessedBlock ?st1 = lastProcessedBlock st \<and> locked ?st1 = locked st"
      by (simp add: logged_def)
    have base2: "(\<exists>xs. sync_log ?st2 = sync_log st @ xs) \<and>
        lastProcessedBlock ?st2 = lastProcessedBlock st \<and> locked ?st2 = locked st"
      by (simp add: logged_def)
    note step = Suc.prems[unfolded processBlocks_loop_step[OF True] Let_def]
    show ?thesis
    proof (cases "blockNumber + 10 > lastBlockNumber")
      case False
      then have "processBlocks_loop fuel env (blockNumber + 10) lastBlockNumber ?st1 =
                   Some (r, st')"
        using step by simp
      from Suc.IH[OF this] base1 show ?thesis by auto
    next
      case gt: True
      show ?thesis
      proof (cases "getFinBlockNumber env (fin_reads ?st1)")
        case (Inl e)
        then have "st' = ?st2" using step gt by simp
        then show ?thesis using base2 by simp
      next
        case (Inr head)
        then have "processBlocks_loop fuel env (blockNumber + 10) head ?st2 = Some (r, st')"
          using step gt by simp
        from Suc.IH[OF this] base2 show ?thesis by auto
      qed
    qed
  qed
qed

lemma processBlocks_extends:
  assumes "processBlocks fuel env startBlockNumber sub st = Some (out, st')"
  shows "(\<exists>xs. sync_log st' = sync_log st @ xs) \<and>
         lastProcessedBlock st' = lastProcessedBlock st"
proof (cases "locked st")
  case True
  then show ?thesis using assms by (simp add: processBlocks_def)
next
  case False
  have ext: "\<And>fuel b l s r s'. processBlocks_loop fuel env b l s = Some (r, s') \<Longrightarrow>
      (\<exists>xs. sync_log s' = sync_log s @ xs) \<and> lastProcessedBlock s' = lastProcessedBlock s"
    using processBlocks_loop_extends by blast
  show ?thesis
    using assms False
    by (auto simp: processBlocks_def Let_def logged_def
        split: sum.splits prod.splits bool.splits option.splits if_splits
        dest!: ext)
qed

text \<open>
  Claim C9. With the mutex held, \<^verbatim>\<open>trimAndUpdateToFinalized\<close> returns false and only logs
  an error: nothing is trimmed and no sync pass starts. With the mutex free, whenever it
  returns, it returns true, and the trim has been called first. When the trim is rejected,
  the error is logged and nothing else happens. When the trim resolves, the sync pass runs
  on the trimmed repository: if it is rejected, the result is its final state with the
  error logged after it; if it resolves, the result is its final state. Where the
  finalized head never answers above \<open>H\<close> the call does return, with true, given the fuel
  \<open>H + 2 - startBlockNumber\<close>, in one of these two ways.
\<close>

theorem trimAndUpdateToFinalized_result:
  "(locked st \<longrightarrow>
      trimAndUpdateToFinalized fuel env startBlockNumber st =
        Some (Settled (Inr False),
              logged [Logger_error ''failed setup trimAndUpdateToFinalized: sync in process''] st)) \<and>
   (\<not> locked st \<longrightarrow>
      (\<forall>out st'. trimAndUpdateToFinalized fuel env startBlockNumber st = Some (out, st') \<longrightarrow>
                 out = Settled (Inr True)) \<and>
      (\<forall>err. trimBlocksFrom env startBlockNumber (lastProcessedBlock st) = Inl err \<longrightarrow>
         trimAndUpdateToFinalized fuel env startBlockNumber st =
           Some (Settled (Inr True),
                 logged [Trim_blocks_from startBlockNumber,
                         Logger_error ''failed to execute trimAndUpdateToFinalized''] st)) \<and>
      (\<forall>kept err st1.
         trimBlocksFrom env startBlockNumber (lastProcessedBlock st) = Inr kept \<longrightarrow>
         processBlocks fuel env (Some startBlockNumber) None
           (logged [Trim_blocks_from startBlockNumber] (st\<lparr>lastProcessedBlock := kept\<rparr>)) =
           Some (Settled (Inl err), st1) \<longrightarrow>
         trimAndUpdateToFinalized fuel env startBlockNumber st =
           Some (Settled (Inr True),
                 logged [Logger_error ''failed to execute trimAndUpdateToFinalized''] st1)) \<and>
      (\<forall>kept st1.
         trimBlocksFrom env startBlockNumber (lastProcessedBlock st) = Inr kept \<longrightarrow>
         processBlocks fuel env (Some startBlockNumber) None
           (logged [Trim_blocks_from startBlockNumber] (st\<lparr>lastProcessedBlock := kept\<rparr>)) =
           Some (Settled (Inr ()), st1) \<longrightarrow>
         trimAndUpdateToFinalized fuel env startBlockNumber st = Some (Settled (Inr True), st1)) \<and>
      (\<forall>out st'. trimAndUpdateToFinalized fuel env startBlockNumber st = Some (out, st') \<longrightarrow>
         (\<exists>xs. sync_log st' = sync_log st @ Trim_blocks_from startBlockNumber # xs) \<and>
         lastProcessedBlock st' =
           (case trimBlocksFrom env startBlockNumber (lastProcessedBlock st) of
              Inl err \<Rightarrow> lastProcessedBlock st | Inr kept \<Rightarrow> kept)) \<and>
      ((\<forall>k head. getFinBlockNumber env k = Inr head \<longrightarrow> head \<le> H) \<longrightarrow>
         (\<exists>st'. trimAndUpdateToFinalized (Suc (nat (H + 1 - startBlockNumber))) env
                   startBlockNumber st = Some (Settled (Inr True), st') \<and>
                (\<forall>kept. trimBlocksFrom env startBlockNumber (lastProcessedBlock st) = Inr kept \<longrightarrow>
                   (\<exists>r st1.
                      processBlocks (Suc (nat (H + 1 - startBlockNumber))) env
                        (Some startBlockNumber) None
                        (logged [Trim_blocks_from startBlockNumber]
                           (st\<lparr>lastProcessedBlock := kept\<rparr>)) = Some (Settled r, st1) \<and>
                      st' = (case r of
                               Inl err \<Rightarrow>
                                 logged [Logger_error
                                           ''failed to execute trimAndUpdateToFinalized''] st1
                             | Inr u \<Rightarrow> st1))))))"
proof -
  have ext: "(\<exists>xs. sync_log st' = sync_log st @ Trim_blocks_from startBlockNumber # xs) \<and>
         lastProcessedBlock st' =
           (case trimBlocksFrom env startBlockNumber (lastProcessedBlock st) of
              Inl err \<Rightarrow> lastProcessedBlock st | Inr kept \<Rightarrow> kept)"
    if free: "\<not> locked st"
      and ret: "trimAndUpdateToFinalized fuel env startBlockNumber st = Some (out, st')"
    for out st'
    proof (cases "trimBlocksFrom env startBlockNumber (lastProcessedBlock st)")
      case (Inl err)
      then show ?thesis using free ret by (auto simp: trimAndUpdateToFinalized_def logged_def)
    next
      case (Inr kept)
      let ?s = "logged [Trim_blocks_from startBlockNumber] (st\<lparr>lastProcessedBlock := kept\<rparr>)"
      obtain r s1 where pb: "processBlocks fuel env (Some startBlockNumber) None ?s = Some (r, s1)"
        using free ret Inr
        by (cases "processBlocks fuel env (Some startBlockNumber) None ?s")
          (auto simp: trimAndUpdateToFinalized_def)
      from processBlocks_extends[OF pb] obtain xs where
        xs: "sync_log s1 = sync_log ?s @ xs" and lp: "lastProcessedBlock s1 = kept"
        by (auto simp: logged_def)
      have "st' = s1 \<or> st' = logged [Logger_error ''failed to execute trimAndUpdateToFinalized''] s1"
        using free ret Inr pb
        by (auto simp: trimAndUpdateToFinalized_def split: outcome.splits sum.splits)
      then show ?thesis
        using xs lp Inr by (auto simp: logged_def)
    qed
  show ?thesis
  proof (intro conjI impI allI)
    assume "locked st"
    then show "trimAndUpdateToFinalized fuel env startBlockNumber st =
          Some (Settled (Inr False),
                logged [Logger_error ''failed setup trimAndUpdateToFinalized: sync in process''] st)"
      by (simp add: trimAndUpdateToFinalized_def)
  next
    fix out st'
    assume free: "\<not> locked st"
      and ret: "trimAndUpdateToFinalized fuel env startBlockNumber st = Some (out, st')"
    have np: "\<And>s r s'. \<not> locked s \<Longrightarrow> processBlocks fuel env (Some startBlockNumber) None s
                  = Some (r, s') \<Longrightarrow> r \<noteq> Pending"
      by (auto simp: processBlocks_def Let_def
          split: sum.splits prod.splits bool.splits option.splits if_splits)
    show "out = Settled (Inr True)"
    proof (cases "trimBlocksFrom env startBlockNumber (lastProcessedBlock st)")
      case (Inl err)
      then show ?thesis using free ret by (simp add: trimAndUpdateToFinalized_def)
    next
      case (Inr kept)
      let ?s = "logged [Trim_blocks_from startBlockNumber] (st\<lparr>lastProcessedBlock := kept\<rparr>)"
      have "\<not> locked ?s" using free by (simp add: logged_def)
      from np[OF this] show ?thesis
        using free ret Inr
        by (auto simp: trimAndUpdateToFinalized_def
            split: sum.splits option.splits prod.splits outcome.splits)
    qed
  next
    fix err
    assume "\<not> locked st" "trimBlocksFrom env startBlockNumber (lastProcessedBlock st) = Inl err"
    then show "trimAndUpdateToFinalized fuel env startBlockNumber st =
             Some (Settled (Inr True),
                   logged [Trim_blocks_from startBlockNumber,
                           Logger_error ''failed to execute trimAndUpdateToFinalized''] st)"
      by (simp add: trimAndUpdateToFinalized_def)
  next
    fix kept err st1
    assume "\<not> locked st" "trimBlocksFrom env startBlockNumber (lastProcessedBlock st) = Inr kept"
      "processBlocks fuel env (Some startBlockNumber) None
             (logged [Trim_blocks_from startBlockNumber] (st\<lparr>lastProcessedBlock := kept\<rparr>)) =
             Some (Settled (Inl err), st1)"
    then show "trimAndUpdateToFinalized fuel env startBlockNumber st =
             Some (Settled (Inr True),
                   logged [Logger_error ''failed to execute trimAndUpdateToFinalized''] st1)"
      by (simp add: trimAndUpdateToFinalized_def)
  next
    fix kept st1
    assume "\<not> locked st" "trimBlocksFrom env startBlockNumber (lastProcessedBlock st) = Inr kept"
      "processBlocks fuel env (Some startBlockNumber) None
             (logged [Trim_blocks_from startBlockNumber] (st\<lparr>lastProcessedBlock := kept\<rparr>)) =
             Some (Settled (Inr ()), st1)"
    then show "trimAndUpdateToFinalized fuel env startBlockNumber st = Some (Settled (Inr True), st1)"
      by (simp add: trimAndUpdateToFinalized_def)
  next
    fix out st'
    assume "\<not> locked st"
      and "trimAndUpdateToFinalized fuel env startBlockNumber st = Some (out, st')"
    then show "\<exists>xs. sync_log st' = sync_log st @ Trim_blocks_from startBlockNumber # xs"
      using ext by blast
  next
    fix out st'
    assume "\<not> locked st"
      and "trimAndUpdateToFinalized fuel env startBlockNumber st = Some (out, st')"
    then show "lastProcessedBlock st' =
             (case trimBlocksFrom env startBlockNumber (lastProcessedBlock st) of
                Inl err \<Rightarrow> lastProcessedBlock st | Inr kept \<Rightarrow> kept)"
      using ext by blast
  next
    assume free: "\<not> locked st"
      and bound: "\<forall>k head. getFinBlockNumber env k = Inr head \<longrightarrow> head \<le> H"
    show "\<exists>st'. trimAndUpdateToFinalized (Suc (nat (H + 1 - startBlockNumber))) env
                     startBlockNumber st = Some (Settled (Inr True), st') \<and>
                  (\<forall>kept. trimBlocksFrom env startBlockNumber (lastProcessedBlock st) = Inr kept \<longrightarrow>
                     (\<exists>r st1.
                        processBlocks (Suc (nat (H + 1 - startBlockNumber))) env
                          (Some startBlockNumber) None
                          (logged [Trim_blocks_from startBlockNumber]
                             (st\<lparr>lastProcessedBlock := kept\<rparr>)) = Some (Settled r, st1) \<and>
                        st' = (case r of
                                 Inl err \<Rightarrow>
                                   logged [Logger_error
                                             ''failed to execute trimAndUpdateToFinalized''] st1
                               | Inr u \<Rightarrow> st1)))"
    proof (cases "trimBlocksFrom env startBlockNumber (lastProcessedBlock st)")
      case (Inl err)
      then show ?thesis using free by (simp add: trimAndUpdateToFinalized_def)
    next
      case (Inr kept)
      let ?s = "logged [Trim_blocks_from startBlockNumber] (st\<lparr>lastProcessedBlock := kept\<rparr>)"
      have "\<not> locked ?s" using free by (simp add: logged_def)
      from processBlocks_settles[OF bound this, of startBlockNumber None]
      obtain r s' where "processBlocks (Suc (nat (H + 1 - startBlockNumber))) env
          (Some startBlockNumber) None ?s = Some (Settled r, s')" by blast
      then show ?thesis using free Inr
        by (cases r) (simp_all add: trimAndUpdateToFinalized_def)
    qed
  qed
qed

text \<open>
  The four cases, with the state each leaves: the mutex held; the trim rejected;
  \<^verbatim>\<open>processBlocks\<close> rejected (the read of the finalized head fails: the error is logged
  and the mutex stays held); and a resync from height 105 to the head at 119 after a trim
  of a repository that held height 110.
\<close>

theorem trimAndUpdateToFinalized_result_witness:
  "trimAndUpdateToFinalized 0 (steady_env 119) 100 (idle_state\<lparr>locked := True\<rparr>) =
     Some (Settled (Inr False),
           \<lparr>locked = True, lastProcessedBlock = 99, fin_reads = 0,
            sync_log = [Logger_error ''failed setup trimAndUpdateToFinalized: sync in process'']\<rparr>) \<and>
   trimAndUpdateToFinalized 0
       ((steady_env 119)\<lparr>trimBlocksFrom := (\<lambda>start kept. Inl (Error ''db''))\<rparr>) 100 idle_state =
     Some (Settled (Inr True),
           \<lparr>locked = False, lastProcessedBlock = 99, fin_reads = 0,
            sync_log = [Trim_blocks_from 100,
                        Logger_error ''failed to execute trimAndUpdateToFinalized'']\<rparr>) \<and>
   trimAndUpdateToFinalized 0
       ((steady_env 119)\<lparr>getFinBlockNumber := (\<lambda>k. Inl (Error ''rpc''))\<rparr>) 100 idle_state =
     Some (Settled (Inr True),
           \<lparr>locked = True, lastProcessedBlock = 99, fin_reads = 1,
            sync_log = [Trim_blocks_from 100, Logger_info ''Starting processBlocks'',
                        Logger_error ''failed to execute trimAndUpdateToFinalized'']\<rparr>) \<and>
   map_option (\<lambda>(r, st). (r, locked st, lastProcessedBlock st, take 1 (sync_log st),
                            dispatched_heights st))
       (trimAndUpdateToFinalized 21 (steady_env 119) 105 (idle_state\<lparr>lastProcessedBlock := 110\<rparr>)) =
     Some (Settled (Inr True), False, 104, [Trim_blocks_from 105],
           [[105, 106, 107, 108, 109, 110, 111, 112, 113, 114],
            [115, 116, 117, 118]])"
proof -
  have bound: "\<forall>k head. getFinBlockNumber (steady_env 119) k = Inr head \<longrightarrow> head \<le> 119"
    by (simp add: steady_env_def)
  have held: "trimAndUpdateToFinalized 0 (steady_env 119) 100 (idle_state\<lparr>locked := True\<rparr>) =
     Some (Settled (Inr False),
           \<lparr>locked = True, lastProcessedBlock = 99, fin_reads = 0,
            sync_log = [Logger_error ''failed setup trimAndUpdateToFinalized: sync in process'']\<rparr>)"
    by code_simp
  have trim: "trimAndUpdateToFinalized 0
       ((steady_env 119)\<lparr>trimBlocksFrom := (\<lambda>start kept. Inl (Error ''db''))\<rparr>) 100 idle_state =
     Some (Settled (Inr True),
           \<lparr>locked = False, lastProcessedBlock = 99, fin_reads = 0,
            sync_log = [Trim_blocks_from 100,
                        Logger_error ''failed to execute trimAndUpdateToFinalized'']\<rparr>)"
    by code_simp
  have rej: "trimAndUpdateToFinalized 0
       ((steady_env 119)\<lparr>getFinBlockNumber := (\<lambda>k. Inl (Error ''rpc''))\<rparr>) 100 idle_state =
     Some (Settled (Inr True),
           \<lparr>locked = True, lastProcessedBlock = 99, fin_reads = 1,
            sync_log = [Trim_blocks_from 100, Logger_info ''Starting processBlocks'',
                        Logger_error ''failed to execute trimAndUpdateToFinalized'']\<rparr>)"
    by code_simp
  have run: "map_option (\<lambda>(r, st). (r, locked st, lastProcessedBlock st, take 1 (sync_log st),
                            dispatched_heights st))
       (trimAndUpdateToFinalized 21 (steady_env 119) 105 (idle_state\<lparr>lastProcessedBlock := 110\<rparr>)) =
     Some (Settled (Inr True), False, 104, [Trim_blocks_from 105],
           [[105, 106, 107, 108, 109, 110, 111, 112, 113, 114],
            [115, 116, 117, 118]])"
    by code_simp
  show ?thesis
    using trimAndUpdateToFinalized_result
      [where st = "idle_state\<lparr>locked := True\<rparr>" and fuel = 0 and env = "steady_env 119"
         and startBlockNumber = 100]
      trimAndUpdateToFinalized_result
      [where st = idle_state and fuel = 0 and startBlockNumber = 100 and H = 119
         and env = "(steady_env 119)\<lparr>trimBlocksFrom := (\<lambda>start kept. Inl (Error ''db''))\<rparr>"]
      trimAndUpdateToFinalized_result
      [where st = idle_state and fuel = 0 and startBlockNumber = 100 and H = 119
         and env = "(steady_env 119)\<lparr>getFinBlockNumber := (\<lambda>k. Inl (Error ''rpc''))\<rparr>"]
      bound held trim rej run
    by blast
qed

section \<open>Era aggregation: clipped stakers and rejected payee lookups\<close>

lemma staker_nominator_fields:
  "staker_nominator env bh e v cl s = Inr n \<Longrightarrow>
     account_id n = who s \<and> validator n = v \<and> era n = e \<and>
     nominator_value n = exposure_value s \<and>
     (is_clipped n \<longleftrightarrow> who s \<notin> who ` set (others cl))"
proof -
  assume a: "staker_nominator env bh e v cl s = Inr n"
  then obtain p where n: "n = \<lparr>era = e, account_id = who s,
       reward_dest = fst (reward_fields p), reward_account_id = snd (reward_fields p),
       validator = v, is_clipped = (find (\<lambda>x. who x = who s) (others cl) = None),
       nominator_value = exposure_value s\<rparr>"
    by (auto simp: staker_nominator_def Let_def split: sum.splits)
  have "(find (\<lambda>x. who x = who s) (others cl) = None) \<longleftrightarrow> who s \<notin> who ` set (others cl)"
    unfolding find_None_iff by (auto simp: image_iff)
  then show ?thesis using n by simp
qed

lemma staker_nominator_rejects:
  "staker_nominator env bh e v cl s = Inl err \<longleftrightarrow> payee_at env bh (who s) = Inl err"
  by (auto simp: staker_nominator_def Let_def split: sum.splits)

lemma staker_nominator_resolves:
  "payee_at env bh (who s) = Inr p \<Longrightarrow> \<exists>n. staker_nominator env bh e v cl s = Inr n"
  by (simp add: staker_nominator_def Let_def)

lemma mem_resolved:
  "n \<in> set (concat (map (\<lambda>s. case f s of Inl err \<Rightarrow> [] | Inr m \<Rightarrow> [m]) xs)) \<longleftrightarrow>
     (\<exists>s \<in> set xs. f s = Inr n)"
  by (induction xs) (auto split: sum.splits)

lemma process_stakers_nominators:
  "nominators (process_stakers env bh e v cl xs acc) =
     nominators acc @
     concat (map (\<lambda>s. case staker_nominator env bh e v cl s of Inl err \<Rightarrow> [] | Inr n \<Rightarrow> [n]) xs)"
  by (induction xs arbitrary: acc) (auto split: sum.splits)

lemma process_stakers_validators:
  "validators (process_stakers env bh e v cl xs acc) = validators acc"
  by (induction xs arbitrary: acc) (auto split: sum.splits)

lemma process_stakers_log:
  "staking_log (process_stakers env bh e v cl xs acc) =
     staking_log acc @
     concat (map (\<lambda>s. case staker_nominator env bh e v cl s of
                         Inl err \<Rightarrow> [Error_cannot_process_staker (who s) err] | Inr n \<Rightarrow> []) xs)"
  by (induction xs arbitrary: acc) (auto split: sum.splits)

lemma process_stakers_log_mono:
  "set (staking_log acc) \<subseteq> set (staking_log (process_stakers env bh e v cl xs acc))"
  by (simp add: process_stakers_log)

lemma process_stakers_logs_rejection:
  assumes "s \<in> set xs" and "payee_at env bh (who s) = Inl err"
  shows "Error_cannot_process_staker (who s) err \<in>
           set (staking_log (process_stakers env bh e v cl xs acc))"
proof -
  have "staker_nominator env bh e v cl s = Inl err"
    using assms(2) by (simp add: staker_nominator_rejects)
  then have "Error_cannot_process_staker (who s) err \<in>
      set (case staker_nominator env bh e v cl s of
             Inl err \<Rightarrow> [Error_cannot_process_staker (who s) err] | Inr n \<Rightarrow> [])"
    by simp
  then show ?thesis
    using assms(1) unfolding process_stakers_log by (auto intro!: bexI[of _ s])
qed

lemma processValidator_result:
  assumes "processValidator env bh e pm v st cl acc = Inr acc'"
  shows "nominators acc' = nominators acc @
           concat (map (\<lambda>s. case staker_nominator env bh e v cl s of Inl err \<Rightarrow> [] | Inr n \<Rightarrow> [n])
                       (others st))"
    and "map account_id (validators acc') = map account_id (validators acc) @ [v]"
    and "set (staking_log acc) \<subseteq> set (staking_log acc')"
    and "\<And>s err. s \<in> set (others st) \<Longrightarrow> payee_at env bh (who s) = Inl err \<Longrightarrow>
           Error_cannot_process_staker (who s) err \<in> set (staking_log acc')"
proof -
  obtain p d where p: "erasValidatorPrefs env bh e v = Inr p" and d: "payee_at env bh v = Inr d"
    using assms by (auto simp: processValidator_def Let_def split: sum.splits)
  let ?acc1 = "process_stakers env bh e v cl (others st)
                 (acc\<lparr>staking_log := staking_log acc @
                    [Debug_loaded_stakers (length (others st)) v]\<rparr>)"
  have n: "nominators acc' = nominators ?acc1"
    and vl: "map account_id (validators acc') = map account_id (validators ?acc1) @ [v]"
    and lg: "set (staking_log ?acc1) \<subseteq> set (staking_log acc')"
    using assms p d by (auto simp: processValidator_def Let_def split: if_splits)
  show "nominators acc' = nominators acc @
           concat (map (\<lambda>s. case staker_nominator env bh e v cl s of Inl err \<Rightarrow> [] | Inr n \<Rightarrow> [n])
                       (others st))"
    using n by (simp add: process_stakers_nominators)
  show "map account_id (validators acc') = map account_id (validators acc) @ [v]"
    using vl by (simp add: process_stakers_validators)
  show "set (staking_log acc) \<subseteq> set (staking_log acc')"
    using lg by (auto simp: process_stakers_log)
  show "\<And>s err. s \<in> set (others st) \<Longrightarrow> payee_at env bh (who s) = Inl err \<Longrightarrow>
           Error_cannot_process_staker (who s) err \<in> set (staking_log acc')"
    using lg process_stakers_logs_rejection by blast
qed

text \<open>
  What a call of the loop over the validators that resolves has read and produced: both
  exposures of every validator, the nominators of their stakers in order, one validator
  record each, and an error record for every rejected payee lookup of a staker.
\<close>

lemma process_validators_result:
  assumes "process_validators env bh e pm ids acc = Inr res"
  shows "(\<forall>v \<in> set ids. \<exists>st cl. erasStakers env bh e v = Inr st \<and> erasStakersClipped env bh e v = Inr cl)
     \<and> nominators res = nominators acc @
           concat (map (\<lambda>v. concat (map (\<lambda>s. case staker_nominator env bh e v
                                 (projr (erasStakersClipped env bh e v)) s of
                                   Inl err \<Rightarrow> [] | Inr n \<Rightarrow> [n])
                             (others (projr (erasStakers env bh e v))))) ids)
     \<and> map account_id (validators res) = map account_id (validators acc) @ ids
     \<and> set (staking_log acc) \<subseteq> set (staking_log res)
     \<and> (\<forall>v \<in> set ids. \<forall>s \<in> set (others (projr (erasStakers env bh e v))). \<forall>err.
           payee_at env bh (who s) = Inl err \<longrightarrow>
           Error_cannot_process_staker (who s) err \<in> set (staking_log res))"
  using assms
proof (induction ids arbitrary: acc)
  case Nil
  then show ?case by simp
next
  case (Cons v ids)
  from Cons.prems obtain st cl acc1 where
    st: "erasStakers env bh e v = Inr st" and cl: "erasStakersClipped env bh e v = Inr cl"
    and pv: "processValidator env bh e pm v st cl acc = Inr acc1"
    and rest: "process_validators env bh e pm ids acc1 = Inr res"
    by (auto split: sum.splits)
  note one = processValidator_result[OF pv]
  note ih = Cons.IH[OF rest]
  have a: "\<forall>v' \<in> set (v # ids). \<exists>st cl. erasStakers env bh e v' = Inr st \<and>
             erasStakersClipped env bh e v' = Inr cl"
    using st cl ih by auto
  have b: "nominators res = nominators acc @
           concat (map (\<lambda>v. concat (map (\<lambda>s. case staker_nominator env bh e v
                                 (projr (erasStakersClipped env bh e v)) s of
                                   Inl err \<Rightarrow> [] | Inr n \<Rightarrow> [n])
                             (others (projr (erasStakers env bh e v))))) (v # ids))"
    using ih one(1) st cl by simp
  have c: "map account_id (validators res) = map account_id (validators acc) @ (v # ids)"
    using ih one(2) by simp
  have d: "set (staking_log acc) \<subseteq> set (staking_log res)"
    using ih one(3) by blast
  have e: "\<forall>v' \<in> set (v # ids). \<forall>s \<in> set (others (projr (erasStakers env bh e v'))). \<forall>err.
           payee_at env bh (who s) = Inl err \<longrightarrow>
           Error_cannot_process_staker (who s) err \<in> set (staking_log res)"
  proof (intro ballI allI impI)
    fix v' s err
    assume v': "v' \<in> set (v # ids)" and s: "s \<in> set (others (projr (erasStakers env bh e v')))"
      and r: "payee_at env bh (who s) = Inl err"
    show "Error_cannot_process_staker (who s) err \<in> set (staking_log res)"
    proof (cases "v' \<in> set ids")
      case True
      then show ?thesis using ih s r by blast
    next
      case False
      then have "v' = v" using v' by simp
      then have "s \<in> set (others st)" using s st by simp
      from one(4)[OF this r] show ?thesis using ih by blast
    qed
  qed
  show ?case using a b c d e by blast
qed

lemma process_validators_resolves:
  assumes "\<forall>v \<in> set ids.
             (\<exists>p. erasValidatorPrefs env bh e v = Inr p) \<and>
             (\<exists>st. erasStakers env bh e v = Inr st) \<and>
             (\<exists>cl. erasStakersClipped env bh e v = Inr cl) \<and>
             (\<exists>d. payee_at env bh v = Inr d)"
  shows "\<exists>res. process_validators env bh e pm ids acc = Inr res"
  using assms
proof (induction ids arbitrary: acc)
  case Nil
  then show ?case by simp
next
  case (Cons v ids)
  then obtain p st cl d where q: "erasValidatorPrefs env bh e v = Inr p"
    "erasStakers env bh e v = Inr st" "erasStakersClipped env bh e v = Inr cl"
    "payee_at env bh v = Inr d"
    by auto
  then obtain acc1 where "processValidator env bh e pm v st cl acc = Inr acc1"
    by (simp add: processValidator_def Let_def)
  moreover have "\<exists>res. process_validators env bh e pm ids acc1 = Inr res"
    using Cons by simp
  ultimately show ?case using q by auto
qed

lemma era_env_result:
  "getValidatorsAndNominatorsData era_env ''0xabc'' 5 =
     Inr \<lparr>nominators =
            [\<lparr>era = 5, account_id = ''A'', reward_dest = Some ''Account'',
              reward_account_id = Some ''A2'', validator = ''V1'', is_clipped = False,
              nominator_value = ''30''\<rparr>,
             \<lparr>era = 5, account_id = ''C'', reward_dest = Some ''Staked'',
              reward_account_id = None, validator = ''V1'', is_clipped = True,
              nominator_value = ''5''\<rparr>],
          validators =
            [\<lparr>era = 5, account_id = ''V1'', reward_dest = Some ''Staked'',
              reward_account_id = None, total = ''60'', own = ''10'', nominators_count = 3,
              reward_points = 20, prefs = ''{commission: 0}''\<rparr>,
             \<lparr>era = 5, account_id = ''V2'', reward_dest = Some ''Staked'',
              reward_account_id = None, total = ''7'', own = ''7'', nominators_count = 0,
              reward_points = 40, prefs = ''{commission: 0}''\<rparr>],
          staking_log =
            [Debug_loaded_stakers 3 ''V1'',
             Error_cannot_process_staker ''B'' (Error ''payee lookup failed''),
             Debug_loaded_stakers 0 ''V2'']\<rparr>"
  by code_simp

text \<open>
  Claim C7. In the result of \<^verbatim>\<open>getValidatorsAndNominatorsData\<close>, every Nominator record comes
  from a staker of the unclipped exposure of its validator, and its \<open>is_clipped\<close> is true
  exactly when no entry of that validator's clipped exposure has the same account id.
  Conversely every staker of the unclipped exposure of a validator of the era whose payee
  lookup resolves has such a record.
\<close>

theorem is_clipped_iff_absent_from_clipped:
  assumes "getValidatorsAndNominatorsData env blockHash eraId = Inr res"
  shows "(\<forall>n \<in> set (nominators res). \<exists>stakers clipped.
             erasStakers env blockHash eraId (validator n) = Inr stakers \<and>
             erasStakersClipped env blockHash eraId (validator n) = Inr clipped \<and>
             account_id n \<in> who ` set (others stakers) \<and>
             (is_clipped n \<longleftrightarrow> account_id n \<notin> who ` set (others clipped))) \<and>
         (\<forall>individual v stakers clipped s p.
             erasRewardPoints env blockHash eraId = Inr individual \<longrightarrow>
             v \<in> set (validatorsAccountIdSet individual) \<longrightarrow>
             erasStakers env blockHash eraId v = Inr stakers \<longrightarrow>
             erasStakersClipped env blockHash eraId v = Inr clipped \<longrightarrow>
             s \<in> set (others stakers) \<longrightarrow>
             payee_at env blockHash (who s) = Inr p \<longrightarrow>
             (\<exists>n \<in> set (nominators res). account_id n = who s \<and> validator n = v \<and>
                 (is_clipped n \<longleftrightarrow> who s \<notin> who ` set (others clipped))))"
proof -
  from assms obtain individual where
    rp: "erasRewardPoints env blockHash eraId = Inr individual"
    and pv: "process_validators env blockHash eraId (eraRewardPointsMap individual)
               (validatorsAccountIdSet individual)
               \<lparr>nominators = [], validators = [], staking_log = []\<rparr> = Inr res"
    by (auto simp: getValidatorsAndNominatorsData_def split: sum.splits)
  let ?ids = "validatorsAccountIdSet individual"
  note r = process_validators_result[OF pv]
  have ex: "\<forall>v \<in> set ?ids. \<exists>st cl. erasStakers env blockHash eraId v = Inr st \<and>
              erasStakersClipped env blockHash eraId v = Inr cl"
    using r by blast
  have mem: "\<And>n. n \<in> set (nominators res) \<longleftrightarrow>
      (\<exists>v \<in> set ?ids. \<exists>s \<in> set (others (projr (erasStakers env blockHash eraId v))).
         staker_nominator env blockHash eraId v (projr (erasStakersClipped env blockHash eraId v)) s
           = Inr n)"
  proof -
    fix n
    have "nominators res =
           concat (map (\<lambda>v. concat (map (\<lambda>s. case staker_nominator env blockHash eraId v
                                 (projr (erasStakersClipped env blockHash eraId v)) s of
                                   Inl err \<Rightarrow> [] | Inr n \<Rightarrow> [n])
                             (others (projr (erasStakers env blockHash eraId v))))) ?ids)"
      using r by simp
    then have "n \<in> set (nominators res) \<longleftrightarrow>
        (\<exists>v \<in> set ?ids. n \<in> set (concat (map (\<lambda>s. case staker_nominator env blockHash eraId v
                                 (projr (erasStakersClipped env blockHash eraId v)) s of
                                   Inl err \<Rightarrow> [] | Inr n \<Rightarrow> [n])
                             (others (projr (erasStakers env blockHash eraId v))))))"
      by simp
    then show "?thesis n"
      by (simp only: mem_resolved)
  qed
  have part1: "\<forall>n \<in> set (nominators res). \<exists>stakers clipped.
             erasStakers env blockHash eraId (validator n) = Inr stakers \<and>
             erasStakersClipped env blockHash eraId (validator n) = Inr clipped \<and>
             account_id n \<in> who ` set (others stakers) \<and>
             (is_clipped n \<longleftrightarrow> account_id n \<notin> who ` set (others clipped))"
  proof
    fix n assume "n \<in> set (nominators res)"
    then obtain v s where v: "v \<in> set ?ids"
      and s: "s \<in> set (others (projr (erasStakers env blockHash eraId v)))"
      and n: "staker_nominator env blockHash eraId v
                (projr (erasStakersClipped env blockHash eraId v)) s = Inr n"
      using mem by blast
    obtain st cl where st: "erasStakers env blockHash eraId v = Inr st"
      and cl: "erasStakersClipped env blockHash eraId v = Inr cl"
      using ex v by blast
    note f = staker_nominator_fields[OF n]
    have "validator n = v" using f by simp
    moreover have "account_id n \<in> who ` set (others st)" using f s st by simp
    moreover have "is_clipped n \<longleftrightarrow> account_id n \<notin> who ` set (others cl)" using f cl by simp
    ultimately show "\<exists>stakers clipped.
             erasStakers env blockHash eraId (validator n) = Inr stakers \<and>
             erasStakersClipped env blockHash eraId (validator n) = Inr clipped \<and>
             account_id n \<in> who ` set (others stakers) \<and>
             (is_clipped n \<longleftrightarrow> account_id n \<notin> who ` set (others clipped))"
      using st cl by blast
  qed
  have part2: "\<forall>individual v stakers clipped s p.
             erasRewardPoints env blockHash eraId = Inr individual \<longrightarrow>
             v \<in> set (validatorsAccountIdSet individual) \<longrightarrow>
             erasStakers env blockHash eraId v = Inr stakers \<longrightarrow>
             erasStakersClipped env blockHash eraId v = Inr clipped \<longrightarrow>
             s \<in> set (others stakers) \<longrightarrow>
             payee_at env blockHash (who s) = Inr p \<longrightarrow>
             (\<exists>n \<in> set (nominators res). account_id n = who s \<and> validator n = v \<and>
                 (is_clipped n \<longleftrightarrow> who s \<notin> who ` set (others clipped)))"
  proof (intro allI impI)
    fix individual' v stakers clipped s p
    assume rp': "erasRewardPoints env blockHash eraId = Inr individual'"
      and v: "v \<in> set (validatorsAccountIdSet individual')"
      and st: "erasStakers env blockHash eraId v = Inr stakers"
      and cl: "erasStakersClipped env blockHash eraId v = Inr clipped"
      and s: "s \<in> set (others stakers)"
      and p: "payee_at env blockHash (who s) = Inr p"
    have v': "v \<in> set ?ids" using rp rp' v by simp
    obtain n where n: "staker_nominator env blockHash eraId v clipped s = Inr n"
      using staker_nominator_resolves[OF p] by blast
    have "n \<in> set (nominators res)"
      unfolding mem using v' s st cl n by (intro bexI[of _ v] bexI[of _ s]) simp_all
    then show "\<exists>n \<in> set (nominators res). account_id n = who s \<and> validator n = v \<and>
                 (is_clipped n \<longleftrightarrow> who s \<notin> who ` set (others clipped))"
      using staker_nominator_fields[OF n] by blast
  qed
  show ?thesis using part1 part2 by blast
qed

text \<open>In the example era, \<open>A\<close> is in the clipped exposure of \<open>V1\<close> and \<open>C\<close> is not.\<close>

theorem is_clipped_iff_absent_from_clipped_witness:
  "map (\<lambda>n. (account_id n, validator n, is_clipped n))
       (nominators (projr (getValidatorsAndNominatorsData era_env ''0xabc'' 5))) =
     [(''A'', ''V1'', False), (''C'', ''V1'', True)] \<and>
   map who (others (projr (erasStakersClipped era_env ''0xabc'' 5 ''V1''))) = [''A'']"
  using is_clipped_iff_absent_from_clipped[OF era_env_result]
  by (simp add: era_env_result) (simp add: era_env_def)

text \<open>
  Claim C10. Where the reads of the reward points, of the exposures and preferences and of
  the validators' own payees resolve, \<^verbatim>\<open>getValidatorsAndNominatorsData\<close> resolves whatever
  the payee lookups of the stakers do. It has one Validator record per validator of the
  era, in order; its nominators are, validator by validator and in order, those of the
  stakers whose payee lookup resolved; and a staker whose payee lookup is rejected has no
  record but an error record in the log.
\<close>

theorem staker_rejection_contained:
  assumes rp: "erasRewardPoints env blockHash eraId = Inr individual"
    and ok: "\<forall>v \<in> set (validatorsAccountIdSet individual).
               (\<exists>p. erasValidatorPrefs env blockHash eraId v = Inr p) \<and>
               erasStakers env blockHash eraId v = Inr (stakers_of v) \<and>
               erasStakersClipped env blockHash eraId v = Inr (clipped_of v) \<and>
               (\<exists>d. payee_at env blockHash v = Inr d)"
  shows "\<exists>res. getValidatorsAndNominatorsData env blockHash eraId = Inr res \<and>
           map account_id (validators res) = validatorsAccountIdSet individual \<and>
           nominators res =
             concat (map (\<lambda>v. concat (map (\<lambda>s. case staker_nominator env blockHash eraId v
                                                   (clipped_of v) s of
                                                 Inl err \<Rightarrow> [] | Inr n \<Rightarrow> [n])
                                          (others (stakers_of v))))
                         (validatorsAccountIdSet individual)) \<and>
           (\<forall>v \<in> set (validatorsAccountIdSet individual). \<forall>s \<in> set (others (stakers_of v)).
              \<forall>err. payee_at env blockHash (who s) = Inl err \<longrightarrow>
                staker_nominator env blockHash eraId v (clipped_of v) s = Inl err \<and>
                Error_cannot_process_staker (who s) err \<in> set (staking_log res))"
proof -
  let ?ids = "validatorsAccountIdSet individual"
  let ?acc = "\<lparr>nominators = [], validators = [], staking_log = []\<rparr>"
  have "\<forall>v \<in> set ?ids.
             (\<exists>p. erasValidatorPrefs env blockHash eraId v = Inr p) \<and>
             (\<exists>st. erasStakers env blockHash eraId v = Inr st) \<and>
             (\<exists>cl. erasStakersClipped env blockHash eraId v = Inr cl) \<and>
             (\<exists>d. payee_at env blockHash v = Inr d)"
    using ok by blast
  from process_validators_resolves[OF this]
  obtain res where pv: "process_validators env blockHash eraId (eraRewardPointsMap individual)
      ?ids ?acc = Inr res"
    by blast
  note r = process_validators_result[OF pv]
  have call: "getValidatorsAndNominatorsData env blockHash eraId = Inr res"
    using rp pv by (simp add: getValidatorsAndNominatorsData_def)
  have vals: "map account_id (validators res) = ?ids"
    using r by simp
  let ?F = "\<lambda>v. concat (map (\<lambda>s. case staker_nominator env blockHash eraId v
                           (projr (erasStakersClipped env blockHash eraId v)) s of
                         Inl err \<Rightarrow> [] | Inr n \<Rightarrow> [n])
                  (others (projr (erasStakers env blockHash eraId v))))"
  let ?G = "\<lambda>v. concat (map (\<lambda>s. case staker_nominator env blockHash eraId v (clipped_of v) s of
                         Inl err \<Rightarrow> [] | Inr n \<Rightarrow> [n])
                  (others (stakers_of v)))"
  have same: "\<And>v. v \<in> set ?ids \<Longrightarrow> ?F v = ?G v"
    using ok by simp
  have meq: "map ?F ?ids = map ?G ?ids"
    by (rule map_cong[OF refl]) (rule same)
  have "nominators res = concat (map ?F ?ids)"
    using r by simp
  then have noms: "nominators res = concat (map ?G ?ids)"
    by (simp only: meq)
  have logs: "\<forall>v \<in> set ?ids. \<forall>s \<in> set (others (stakers_of v)).
              \<forall>err. payee_at env blockHash (who s) = Inl err \<longrightarrow>
                staker_nominator env blockHash eraId v (clipped_of v) s = Inl err \<and>
                Error_cannot_process_staker (who s) err \<in> set (staking_log res)"
  proof (intro ballI allI impI)
    fix v s err
    assume v: "v \<in> set ?ids" and s: "s \<in> set (others (stakers_of v))"
      and e: "payee_at env blockHash (who s) = Inl err"
    have "s \<in> set (others (projr (erasStakers env blockHash eraId v)))"
      using ok v s by simp
    then have "Error_cannot_process_staker (who s) err \<in> set (staking_log res)"
      using r v e by blast
    then show "staker_nominator env blockHash eraId v (clipped_of v) s = Inl err \<and>
                Error_cannot_process_staker (who s) err \<in> set (staking_log res)"
      using e by (simp add: staker_nominator_rejects)
  qed
  show ?thesis using call vals noms logs by blast
qed

text \<open>
  In the example era the lookup of \<open>B\<close> is rejected: \<open>A\<close> and \<open>C\<close> have their records,
  both validators have theirs, and the rejection is logged.
\<close>

theorem staker_rejection_contained_witness:
  "payee_at era_env ''0xabc'' ''B'' = Inl (Error ''payee lookup failed'') \<and>
   map account_id (nominators (projr (getValidatorsAndNominatorsData era_env ''0xabc'' 5))) =
     [''A'', ''C''] \<and>
   map account_id (validators (projr (getValidatorsAndNominatorsData era_env ''0xabc'' 5))) =
     [''V1'', ''V2''] \<and>
   Error_cannot_process_staker ''B'' (Error ''payee lookup failed'') \<in>
     set (staking_log (projr (getValidatorsAndNominatorsData era_env ''0xabc'' 5)))"
proof -
  have rp: "erasRewardPoints era_env ''0xabc'' 5 = Inr [(''V1'', 20), (''V2'', 40)]"
    by (simp add: era_env_def)
  have ids: "validatorsAccountIdSet [(''V1'', 20), (''V2'', 40)] = [''V1'', ''V2'']"
    by (simp add: validatorsAccountIdSet_def)
  have ok: "\<forall>v \<in> set (validatorsAccountIdSet [(''V1'', 20), (''V2'', 40)]).
               (\<exists>p. erasValidatorPrefs era_env ''0xabc'' 5 v = Inr p) \<and>
               erasStakers era_env ''0xabc'' 5 v = Inr (projr (erasStakers era_env ''0xabc'' 5 v)) \<and>
               erasStakersClipped era_env ''0xabc'' 5 v =
                 Inr (projr (erasStakersClipped era_env ''0xabc'' 5 v)) \<and>
               (\<exists>d. payee_at era_env ''0xabc'' v = Inr d)"
    unfolding ids by (simp add: era_env_def)
  have run: "payee_at era_env ''0xabc'' ''B'' = Inl (Error ''payee lookup failed'') \<and>
     map account_id (nominators (projr (getValidatorsAndNominatorsData era_env ''0xabc'' 5))) =
       [''A'', ''C''] \<and>
     map account_id (validators (projr (getValidatorsAndNominatorsData era_env ''0xabc'' 5))) =
       [''V1'', ''V2''] \<and>
     Error_cannot_process_staker ''B'' (Error ''payee lookup failed'') \<in>
       set (staking_log (projr (getValidatorsAndNominatorsData era_env ''0xabc'' 5)))"
    by (simp add: era_env_result) (simp add: era_env_def)
  show ?thesis
    using staker_rejection_contained[OF rp ok] run by blast
qed

end
